theory Spec2Isabelle
  imports Complex_Main "HOL-Library.Log_Nat" "HOL-Library.Word"
begin

section \<open>JavaScript numbers\<close>

text \<open>
  Every number of the scripts is an IEEE 754 binary64 value. A finite one is modelled by the
  rational it denotes, and every arithmetic operation of the source is the exact operation
  followed by rounding to the nearest binary64 value, ties to the even significand
  (\<open>rnd\<close>). The significand has 53 bits; below \<open>2 powi (- 1022)\<close> the spacing stays at
  \<open>2 powi (- 1074)\<close> (subnormal numbers). Overflow to \<open>Infinity\<close> is not modelled: the
  silence counter stops growing once one more tenth is absorbed by rounding, far below the
  largest binary64 value, and timestamps are integers of at most 53 bits.
\<close>

definition ilog2 :: "rat \<Rightarrow> int" where
  "ilog2 x = (case quotient_of x of (a, b) \<Rightarrow>
     let k = bitlen a - bitlen b in if 2 powi k \<le> x then k else k - 1)"

definition rhe :: "rat \<Rightarrow> int" where
  "rhe x = (let f = \<lfloor>x\<rfloor>; d = x - of_int f in
     if d < 1 / 2 then f else if 1 / 2 < d then f + 1 else if even f then f else f + 1)"

definition rnd :: "rat \<Rightarrow> rat" where
  "rnd x = (if x = 0 then 0 else
     let a = \<bar>x\<bar>; e = max (ilog2 a - 52) (- 1074)
     in sgn x * of_int (rhe (a / 2 powi e)) * 2 powi e)"

definition fl_add :: "rat \<Rightarrow> rat \<Rightarrow> rat" where
  "fl_add x y = rnd (x + y)"

definition fl_sub :: "rat \<Rightarrow> rat \<Rightarrow> rat" where
  "fl_sub x y = rnd (x - y)"

definition fl_div :: "rat \<Rightarrow> rat \<Rightarrow> rat" where
  "fl_div x y = rnd (x / y)"

text \<open>The literal \<^verbatim>\<open>0.1\<close> of \<^verbatim>\<open>this.silenceDuration += 0.1\<close> and the default
  threshold \<^verbatim>\<open>0.01\<close>: the binary64 values nearest to the decimals.\<close>

definition tenth :: rat where
  "tenth = rnd (1 / 10)"

definition hundredth :: rat where
  "hundredth = rnd (1 / 100)"

text \<open>\<^verbatim>\<open>calculateAverageVolume\<close> divides by the length of the array, so an empty array gives
  \<^verbatim>\<open>0 / 0\<close>, which is \<^verbatim>\<open>NaN\<close>; every comparison with \<^verbatim>\<open>NaN\<close> is false.\<close>

datatype number = NaN | Finite rat

fun js_less :: "number \<Rightarrow> rat \<Rightarrow> bool" where
  "js_less NaN y = False"
| "js_less (Finite x) y = (x < y)"

section \<open>Strings and the page\<close>

text \<open>
  A JavaScript string is a sequence of UTF-16 code units. \<open>js_includes s pat\<close> is
  \<^verbatim>\<open>s.includes(pat)\<close>. The Japanese patterns of the source are written by their code units.
\<close>

type_synonym jsstring = "16 word list"

definition utf16 :: "string \<Rightarrow> jsstring" where
  "utf16 s = map of_char s"

fun js_includes :: "jsstring \<Rightarrow> jsstring \<Rightarrow> bool" where
  "js_includes [] pat = (pat = [])"
| "js_includes (c # cs) pat = (take (length pat) (c # cs) = pat \<or> js_includes cs pat)"

text \<open>\<^verbatim>\<open>maiku\<close> (microphone), \<^verbatim>\<open>ofu\<close> (off), \<^verbatim>\<open>on\<close>, \<^verbatim>\<open>maiku wo ofu\<close>,
  \<^verbatim>\<open>maiku wo on\<close>, \<^verbatim>\<open>myuuto\<close> (mute) and \<^verbatim>\<open>myuuto kaijo\<close> (unmute).\<close>

definition ja_mic :: jsstring where
  "ja_mic = [0x30DE, 0x30A4, 0x30AF]"

definition ja_off :: jsstring where
  "ja_off = [0x30AA, 0x30D5]"

definition ja_on :: jsstring where
  "ja_on = [0x30AA, 0x30F3]"

definition ja_mic_off :: jsstring where
  "ja_mic_off = [0x30DE, 0x30A4, 0x30AF, 0x3092, 0x30AA, 0x30D5]"

definition ja_mic_on :: jsstring where
  "ja_mic_on = [0x30DE, 0x30A4, 0x30AF, 0x3092, 0x30AA, 0x30F3]"

definition ja_mute :: jsstring where
  "ja_mute = [0x30DF, 0x30E5, 0x30FC, 0x30C8]"

definition ja_unmute :: jsstring where
  "ja_unmute = [0x30DF, 0x30E5, 0x30FC, 0x30C8, 0x89E3, 0x9664]"

text \<open>
  An element of the page: its tag, its attributes (\<^verbatim>\<open>getAttribute\<close> is the lookup,
  \<open>None\<close> for \<^verbatim>\<open>null\<close>) and its class list. The page is the list of its elements in
  document order, so \<^verbatim>\<open>querySelector\<close> returns the first match and
  \<^verbatim>\<open>querySelectorAll\<close> all matches in that order. A selector of the source is an optional
  tag followed by attribute tests: presence \<^verbatim>\<open>[a]\<close>, equality \<^verbatim>\<open>[a="v"]\<close>, substring
  \<^verbatim>\<open>[a*="v"]\<close>.
\<close>

record element =
  localName :: string
  attrs :: "string \<rightharpoonup> jsstring"
  classList :: "jsstring list"

datatype attr_test = Has string | Equals string jsstring | Contains string jsstring

type_synonym selector = "string option \<times> attr_test list"

fun attr_holds :: "element \<Rightarrow> attr_test \<Rightarrow> bool" where
  "attr_holds e (Has a) = (attrs e a \<noteq> None)"
| "attr_holds e (Equals a v) = (attrs e a = Some v)"
| "attr_holds e (Contains a v) =
     (case attrs e a of None \<Rightarrow> False | Some w \<Rightarrow> v \<noteq> [] \<and> js_includes w v)"

fun matches :: "element \<Rightarrow> selector \<Rightarrow> bool" where
  "matches e (tag, tests) =
     ((case tag of None \<Rightarrow> True | Some t \<Rightarrow> localName e = t) \<and> list_all (attr_holds e) tests)"

definition querySelector :: "element list \<Rightarrow> selector \<Rightarrow> element option" where
  "querySelector doc sel = find (\<lambda>e. matches e sel) doc"

definition querySelectorAll :: "element list \<Rightarrow> selector \<Rightarrow> element list" where
  "querySelectorAll doc sel = filter (\<lambda>e. matches e sel) doc"

text \<open>\<^verbatim>\<open>element.getAttribute("aria-label") || ""\<close>\<close>

definition ariaLabel :: "element \<Rightarrow> jsstring" where
  "ariaLabel e = (case attrs e ''aria-label'' of None \<Rightarrow> [] | Some v \<Rightarrow> v)"

section \<open>The content script: class AudioLevelMonitor\<close>

text \<open>
  The fields of the class that the monitoring loop reads or writes. \<open>analyser\<close> says
  whether the analyser node exists, \<open>dataArray\<close> is the byte buffer (\<open>None\<close> for
  \<^verbatim>\<open>null\<close>), \<open>lastUnmuteTime\<close> is a \<^verbatim>\<open>Date.now()\<close> value in milliseconds. The audio
  context, the microphone node and the debug display do not take part in any decision and
  are left out.
\<close>

record monitor =
  analyser :: bool
  dataArray :: "8 word list option"
  isMonitoring :: bool
  enabled :: bool
  volumeThreshold :: rat
  silenceDuration :: rat
  maxSilenceDuration :: rat
  isMuted :: bool
  originalMuteState :: bool
  lastUnmuteTime :: int
  unmuteCooldown :: rat
  lastMuteState :: bool

text \<open>
  What a dispatch does to the outside: \<open>Mute\<close> is the call of \<^verbatim>\<open>simulateMuteKey\<close>
  followed by the message \<^verbatim>\<open>AUTO_MUTED\<close> to the background script, \<open>Unmute\<close> the same
  key followed by \<^verbatim>\<open>AUTO_UNMUTED\<close>.
\<close>

datatype action = Mute | Unmute

text \<open>How a call of \<^verbatim>\<open>monitorAudioLevel\<close> ends: it returns at once, it calls
  \<^verbatim>\<open>restartMonitoring\<close>, or it schedules the next call after 100 ms.\<close>

datatype schedule = Returned | Restart | Rescheduled

text \<open>
  What one call reads from outside: the bytes that \<^verbatim>\<open>getByteFrequencyData\<close> writes into
  the buffer, the page, and the value of each \<^verbatim>\<open>Date.now()\<close> the call can reach: the two
  in \<^verbatim>\<open>checkMuteState\<close>, the one of the cooldown test and the one in
  \<^verbatim>\<open>autoUnmute\<close>.
\<close>

record readings =
  byteFrequencyData :: "8 word list"
  document :: "element list"
  nowCheck1 :: int
  nowCheck2 :: int
  nowCooldown :: int
  nowUnmute :: int

text \<open>The constructor, and the state in which the first tick runs when \<^verbatim>\<open>init\<close> has
  read the default settings and \<^verbatim>\<open>setupAudioContext\<close> has made the 128-byte buffer.\<close>

definition constructed :: monitor where
  "constructed = \<lparr>analyser = False, dataArray = None, isMonitoring = False, enabled = False,
     volumeThreshold = hundredth, silenceDuration = 0, maxSilenceDuration = 3,
     isMuted = False, originalMuteState = False, lastUnmuteTime = 0, unmuteCooldown = 2,
     lastMuteState = False\<rparr>"

definition started :: monitor where
  "started = constructed\<lparr>enabled := True, analyser := True,
     dataArray := Some (replicate 128 0), isMonitoring := True\<rparr>"

definition calculateAverageVolume :: "8 word list \<Rightarrow> number" where
  "calculateAverageVolume xs =
     (let sum = foldl (\<lambda>acc b. fl_add acc (of_nat (unat b))) 0 xs
      in if xs = [] then NaN
         else Finite (fl_div (fl_div sum (of_nat (length xs))) 255))"

definition isMicrophoneButton :: "jsstring \<Rightarrow> bool" where
  "isMicrophoneButton label =
     (js_includes label ja_mic \<or> js_includes label (utf16 ''Mic'')
      \<or> js_includes label ja_off \<or> js_includes label ja_on)"

definition selectors :: "selector list" where
  "selectors =
     [(None, [Equals ''jsname'' (utf16 ''hw0c9'')]),
      (Some ''button'', [Contains ''aria-label'' ja_mic]),
      (Some ''button'', [Contains ''aria-label'' (utf16 ''Mic'')]),
      (Some ''button'', [Contains ''aria-label'' ja_off]),
      (Some ''button'', [Contains ''aria-label'' ja_on]),
      (Some ''button'', [Has ''data-is-muted'', Contains ''aria-label'' ja_mic]),
      (Some ''button'', [Has ''data-is-muted'', Contains ''aria-label'' (utf16 ''Mic'')])]"

definition fallbackSelectors :: "selector list" where
  "fallbackSelectors =
     [(Some ''button'', [Has ''data-is-muted'']),
      (None, [Equals ''data-is-muted'' (utf16 ''true'')]),
      (None, [Equals ''data-is-muted'' (utf16 ''false'')])]"

text \<open>The first loop of \<^verbatim>\<open>findMuteButton\<close> looks at the first match of each selector
  only; the second loop looks at every match.\<close>

fun firstLabelled :: "element list \<Rightarrow> selector list \<Rightarrow> element option" where
  "firstLabelled doc [] = None"
| "firstLabelled doc (sel # sels) =
     (case querySelector doc sel of
        None \<Rightarrow> firstLabelled doc sels
      | Some e \<Rightarrow> if isMicrophoneButton (ariaLabel e) then Some e else firstLabelled doc sels)"

fun anyLabelled :: "element list \<Rightarrow> selector list \<Rightarrow> element option" where
  "anyLabelled doc [] = None"
| "anyLabelled doc (sel # sels) =
     (case find (\<lambda>e. isMicrophoneButton (ariaLabel e)) (querySelectorAll doc sel) of
        None \<Rightarrow> anyLabelled doc sels
      | Some e \<Rightarrow> Some e)"

definition findMuteButton :: "element list \<Rightarrow> element option" where
  "findMuteButton doc =
     (case firstLabelled doc selectors of
        Some e \<Rightarrow> Some e
      | None \<Rightarrow> anyLabelled doc fallbackSelectors)"

text \<open>
  The argument of \<^verbatim>\<open>isButtonMuted\<close> is an element or, for any other caller,
  \<^verbatim>\<open>null\<close>, on which the first method call throws a \<^verbatim>\<open>TypeError\<close>.
  \<open>isButtonMuted_try\<close> is the body of the \<^verbatim>\<open>try\<close> block, \<open>isButtonMuted\<close> adds the
  \<^verbatim>\<open>catch\<close>.
\<close>

datatype jsvalue = Null | Element element

datatype exn = TypeError

fun isButtonMuted_try :: "jsvalue \<Rightarrow> exn + bool" where
  "isButtonMuted_try Null = Inl TypeError"
| "isButtonMuted_try (Element button) =
     (case attrs button ''data-is-muted'' of
        Some v \<Rightarrow> Inr (v = utf16 ''true'')
      | None \<Rightarrow>
          let label = ariaLabel button in
          if js_includes label ja_mic_off \<or> js_includes label (utf16 ''Mic off'') then Inr False
          else if js_includes label ja_mic_on \<or> js_includes label (utf16 ''Mic on'') then Inr True
          else if js_includes label ja_mute \<or> js_includes label (utf16 ''Mute'') then Inr True
          else if js_includes label ja_unmute \<or> js_includes label (utf16 ''Unmute'') then Inr False
          else if list_ex (\<lambda>cls. js_includes cls (utf16 ''muted'') \<or> js_includes cls (utf16 ''mute''))
                    (classList button) then Inr True
          else Inr False)"

definition isButtonMuted :: "jsvalue \<Rightarrow> bool" where
  "isButtonMuted button = (case isButtonMuted_try button of Inl error \<Rightarrow> False | Inr r \<Rightarrow> r)"

text \<open>\<^verbatim>\<open>checkMuteState\<close>; \<open>t1\<close> and \<open>t2\<close> are the values of its two \<^verbatim>\<open>Date.now()\<close>.\<close>

definition checkMuteState :: "monitor \<Rightarrow> element list \<Rightarrow> int \<Rightarrow> int \<Rightarrow> monitor" where
  "checkMuteState s doc t1 t2 =
     (case findMuteButton doc of
        None \<Rightarrow> s
      | Some muteButton \<Rightarrow>
          let isActuallyMuted = isButtonMuted (Element muteButton);
              s1 = (if isActuallyMuted \<noteq> isMuted s
                    then (if \<not> isActuallyMuted \<and> isMuted s then s\<lparr>lastUnmuteTime := t1\<rparr> else s)
                           \<lparr>isMuted := isActuallyMuted, originalMuteState := isActuallyMuted\<rparr>
                    else s)
          in if isActuallyMuted \<noteq> lastMuteState s1
             then (if \<not> isActuallyMuted \<and> lastMuteState s1 then s1\<lparr>lastUnmuteTime := t2\<rparr> else s1)
                    \<lparr>lastMuteState := isActuallyMuted\<rparr>
             else s1)"

definition autoMute :: "monitor \<Rightarrow> monitor \<times> action list" where
  "autoMute s =
     (if \<not> isMuted s then (s\<lparr>originalMuteState := isMuted s, isMuted := True\<rparr>, [Mute])
      else (s, []))"

definition autoUnmute :: "monitor \<Rightarrow> int \<Rightarrow> monitor \<times> action list" where
  "autoUnmute s now =
     (if isMuted s then (s\<lparr>isMuted := False, lastUnmuteTime := now\<rparr>, [Unmute])
      else (s, []))"

definition stopMonitoring :: "monitor \<Rightarrow> monitor" where
  "stopMonitoring s = s\<lparr>isMonitoring := False, analyser := False\<rparr>"

text \<open>\<^verbatim>\<open>(Date.now() - this.lastUnmuteTime) / 1000 < this.unmuteCooldown\<close>\<close>

definition isInCooldown :: "monitor \<Rightarrow> int \<Rightarrow> bool" where
  "isInCooldown s now =
     (fl_div (fl_sub (of_int now) (of_int (lastUnmuteTime s))) 1000 < unmuteCooldown s)"

text \<open>The state after \<^verbatim>\<open>getByteFrequencyData\<close> and \<^verbatim>\<open>checkMuteState\<close>, on which the
  branch of \<^verbatim>\<open>monitorAudioLevel\<close> decides. The calls into the browser are taken to
  return normally, so the \<^verbatim>\<open>catch\<close> of \<^verbatim>\<open>monitorAudioLevel\<close> has no branch here.\<close>

definition reconciled :: "monitor \<Rightarrow> readings \<Rightarrow> monitor" where
  "reconciled s r =
     checkMuteState (s\<lparr>dataArray := Some (byteFrequencyData r)\<rparr>) (document r)
       (nowCheck1 r) (nowCheck2 r)"

definition monitorAudioLevel :: "monitor \<Rightarrow> readings \<Rightarrow> monitor \<times> action list \<times> schedule" where
  "monitorAudioLevel s r =
     (if \<not> isMonitoring s \<or> \<not> enabled s then (s, [], Returned)
      else if \<not> analyser s \<or> dataArray s = None then (stopMonitoring s, [], Restart)
      else
        let averageVolume = calculateAverageVolume (byteFrequencyData r);
            s1 = reconciled s r
        in if js_less averageVolume (volumeThreshold s1) then
             let s2 = s1\<lparr>silenceDuration := fl_add (silenceDuration s1) tenth\<rparr>
             in if maxSilenceDuration s2 \<le> silenceDuration s2 \<and> \<not> isMuted s2
                   \<and> \<not> isInCooldown s2 (nowCooldown r)
                then (case autoMute s2 of (s3, acts) \<Rightarrow> (s3, acts, Rescheduled))
                else (s2, [], Rescheduled)
           else
             let s2 = s1\<lparr>silenceDuration := 0\<rparr>
             in if isMuted s2
                then (case autoUnmute s2 (nowUnmute r) of (s3, acts) \<Rightarrow> (s3, acts, Rescheduled))
                else (s2, [], Rescheduled))"

text \<open>The loop: one call per reading, for as long as each call schedules the next. The
  result is the list of the actions of each call, and the last state.\<close>

fun run :: "monitor \<Rightarrow> readings list \<Rightarrow> action list list \<times> monitor" where
  "run s [] = ([], s)"
| "run s (r # rs) =
     (case monitorAudioLevel s r of
        (s', acts, Rescheduled) \<Rightarrow> (case run s' rs of (trace, s'') \<Rightarrow> (acts # trace, s''))
      | (s', acts, _) \<Rightarrow> ([acts], s'))"

section \<open>The userscript: auto-3s-mute.user.js\<close>

text \<open>
  The userscript has the same loop without the cooldown and without the reconciliation: it
  reads its belief from the page on every tick and clicks a button of the page. Its fields
  carry the prefix \<open>u_\<close>; \<^verbatim>\<open>calculateAverageVolume\<close> is the same function. A click
  is \<^verbatim>\<open>click()\<close> on the element followed by the notification.
\<close>

record userscript =
  u_isMonitoring :: bool
  u_volumeThreshold :: rat
  u_silenceDuration :: rat
  u_maxSilenceDuration :: rat
  u_isMuted :: bool
  u_originalMuteState :: bool

datatype click = MuteClick element | UnmuteClick element

text \<open>\<^verbatim>\<open>document.querySelector(a) || document.querySelector(b) || ...\<close>\<close>

fun firstMatch :: "element list \<Rightarrow> selector list \<Rightarrow> element option" where
  "firstMatch doc [] = None"
| "firstMatch doc (sel # sels) =
     (case querySelector doc sel of None \<Rightarrow> firstMatch doc sels | Some e \<Rightarrow> Some e)"

definition u_checkMuteState :: "userscript \<Rightarrow> element list \<Rightarrow> userscript" where
  "u_checkMuteState s doc =
     (let muteButton = firstMatch doc
        [(None, [Equals ''data-is-muted'' (utf16 ''true'')]),
         (None, [Contains ''aria-label'' ja_mute]),
         (None, [Contains ''aria-label'' (utf16 ''Mute'')])]
      in s\<lparr>u_isMuted := (muteButton \<noteq> None)\<rparr>)"

definition u_muteButton :: "element list \<Rightarrow> element option" where
  "u_muteButton doc = firstMatch doc
     [(None, [Equals ''data-is-muted'' (utf16 ''false'')]),
      (None, [Contains ''aria-label'' ja_unmute]),
      (None, [Contains ''aria-label'' (utf16 ''Unmute'')]),
      (None, [Equals ''jsname'' (utf16 ''BOHaEe'')]),
      (None, [Contains ''data-tooltip'' ja_mute]),
      (None, [Contains ''data-tooltip'' (utf16 ''Mute'')])]"

definition u_unmuteButton :: "element list \<Rightarrow> element option" where
  "u_unmuteButton doc = firstMatch doc
     [(None, [Equals ''data-is-muted'' (utf16 ''true'')]),
      (None, [Contains ''aria-label'' ja_unmute]),
      (None, [Contains ''aria-label'' (utf16 ''Unmute'')])]"

definition u_autoMute :: "userscript \<Rightarrow> element list \<Rightarrow> userscript \<times> click list" where
  "u_autoMute s doc =
     (case u_muteButton doc of
        Some muteButton \<Rightarrow>
          if \<not> u_isMuted s then (s\<lparr>u_originalMuteState := u_isMuted s\<rparr>, [MuteClick muteButton])
          else (s, [])
      | None \<Rightarrow> (s, []))"

definition u_autoUnmute :: "userscript \<Rightarrow> element list \<Rightarrow> userscript \<times> click list" where
  "u_autoUnmute s doc =
     (case u_unmuteButton doc of
        Some unmuteButton \<Rightarrow>
          if u_isMuted s then (s, [UnmuteClick unmuteButton]) else (s, [])
      | None \<Rightarrow> (s, []))"

definition u_monitorAudioLevel ::
  "userscript \<Rightarrow> 8 word list \<Rightarrow> element list \<Rightarrow> userscript \<times> click list \<times> schedule" where
  "u_monitorAudioLevel s freq doc =
     (if \<not> u_isMonitoring s then (s, [], Returned)
      else
        let averageVolume = calculateAverageVolume freq;
            s1 = u_checkMuteState s doc
        in if js_less averageVolume (u_volumeThreshold s1) then
             let s2 = s1\<lparr>u_silenceDuration := fl_add (u_silenceDuration s1) tenth\<rparr>
             in if u_maxSilenceDuration s2 \<le> u_silenceDuration s2 \<and> \<not> u_isMuted s2
                then (case u_autoMute s2 doc of (s3, acts) \<Rightarrow> (s3, acts, Rescheduled))
                else (s2, [], Rescheduled)
           else
             let s2 = s1\<lparr>u_silenceDuration := 0\<rparr>
             in if u_isMuted s2 \<and> u_originalMuteState s2 = False
                then (case u_autoUnmute s2 doc of (s3, acts) \<Rightarrow> (s3, acts, Rescheduled))
                else (s2, [], Rescheduled))"

section \<open>Auxiliary notions\<close>

text \<open>The value of the silence counter after \<open>n\<close> silent ticks from zero.\<close>

primrec silenceAfter :: "nat \<Rightarrow> rat" where
  "silenceAfter 0 = 0"
| "silenceAfter (Suc n) = fl_add (silenceAfter n) tenth"

text \<open>The guards of \<^verbatim>\<open>monitorAudioLevel\<close> let the tick through.\<close>

definition running :: "monitor \<Rightarrow> bool" where
  "running s = (isMonitoring s \<and> enabled s \<and> analyser s \<and> dataArray s \<noteq> None)"

text \<open>The actions and the state that one call of \<^verbatim>\<open>monitorAudioLevel\<close> yields.\<close>

definition dispatched :: "monitor \<Rightarrow> readings \<Rightarrow> action list" where
  "dispatched s r = fst (snd (monitorAudioLevel s r))"

definition after :: "monitor \<Rightarrow> readings \<Rightarrow> monitor" where
  "after s r = fst (monitorAudioLevel s r)"

text \<open>A microphone button as the page shows it, and the readings of a tick with one clock
  value.\<close>

definition micButton :: "bool \<Rightarrow> element" where
  "micButton m = \<lparr>localName = ''button'',
     attrs = [''aria-label'' \<mapsto> utf16 ''Mic'',
              ''data-is-muted'' \<mapsto> utf16 (if m then ''true'' else ''false'')],
     classList = []\<rparr>"

definition sampleReadings :: "8 word list \<Rightarrow> element list \<Rightarrow> int \<Rightarrow> readings" where
  "sampleReadings bytes doc now = \<lparr>byteFrequencyData = bytes, document = doc,
     nowCheck1 = now, nowCheck2 = now, nowCooldown = now, nowUnmute = now\<rparr>"

text \<open>The label and class tests of \<^verbatim>\<open>isButtonMuted\<close>.\<close>

definition labelHas :: "element \<Rightarrow> jsstring \<Rightarrow> bool" where
  "labelHas b p = js_includes (ariaLabel b) p"

definition classHas :: "element \<Rightarrow> jsstring \<Rightarrow> bool" where
  "classHas b p = list_ex (\<lambda>cls. js_includes cls p) (classList b)"

text \<open>The constructor of the userscript, and its state when the first tick runs.\<close>

definition u_constructed :: userscript where
  "u_constructed = \<lparr>u_isMonitoring = False, u_volumeThreshold = hundredth,
     u_silenceDuration = 0, u_maxSilenceDuration = 3, u_isMuted = False,
     u_originalMuteState = False\<rparr>"

definition u_started :: userscript where
  "u_started = u_constructed\<lparr>u_isMonitoring := True\<rparr>"

text \<open>A button that carries a label only.\<close>

definition labelledButton :: "string \<Rightarrow> element" where
  "labelledButton l = \<lparr>localName = ''button'', attrs = [''aria-label'' \<mapsto> utf16 l],
     classList = []\<rparr>"

text \<open>The same with the label given by its code units, for a Japanese label.\<close>

definition ja_labelledButton :: "jsstring \<Rightarrow> element" where
  "ja_labelledButton l = \<lparr>localName = ''button'', attrs = [''aria-label'' \<mapsto> l],
     classList = []\<rparr>"

text \<open>The setting of the scenario with the default configuration: the tick passes the
  guards, the threshold is \<^verbatim>\<open>0.01\<close>, the duration 3 s, the cooldown 2 s, and the
  control is believed and was last seen unmuted. \<open>staysUnmuted\<close>: the page of a tick
  shows no control, or a control that is not muted.\<close>

definition scenarioA :: "monitor \<Rightarrow> bool" where
  "scenarioA s = (running s \<and> volumeThreshold s = hundredth \<and> maxSilenceDuration s = 3
     \<and> unmuteCooldown s = 2 \<and> \<not> isMuted s \<and> \<not> lastMuteState s)"

definition staysUnmuted :: "readings \<Rightarrow> bool" where
  "staysUnmuted r =
     (case findMuteButton (document r) of None \<Rightarrow> True | Some b \<Rightarrow> \<not> isButtonMuted (Element b))"

text \<open>The contract of the silence accumulator in the words of the specification: below
  the threshold the tick interval is added, otherwise the counter is reset.\<close>

definition spec_update :: "rat \<Rightarrow> rat \<Rightarrow> number \<Rightarrow> rat" where
  "spec_update threshold elapsed sample =
     (if js_less sample threshold then fl_add elapsed tenth else 0)"

text \<open>The silence counter after \<open>n\<close> more silent ticks.\<close>

primrec silenceFrom :: "rat \<Rightarrow> nat \<Rightarrow> rat" where
  "silenceFrom x 0 = x"
| "silenceFrom x (Suc n) = silenceFrom (fl_add x tenth) n"

section \<open>Rounding to binary64\<close>

lemma bitlen_powi:
  assumes "0 < a"
  shows "(2::rat) powi (bitlen a - 1) \<le> of_int a" "of_int a < (2::rat) powi (bitlen a)"
proof -
  have b: "2 ^ nat (bitlen a - 1) \<le> a" "a < 2 ^ nat (bitlen a)"
    using bitlen_bounds[OF assms] by auto
  have p: "1 \<le> bitlen a" using assms by (auto simp: bitlen_alt_def)
  have "(2::rat) powi (bitlen a - 1) = of_int (2 ^ nat (bitlen a - 1))"
    using p by (simp add: power_int_def)
  also have "\<dots> \<le> of_int a" using b(1) by (simp only: of_int_le_iff)
  finally show "(2::rat) powi (bitlen a - 1) \<le> of_int a" .
  have "(of_int a :: rat) < of_int (2 ^ nat (bitlen a))" using b(2) by (simp only: of_int_less_iff)
  also have "\<dots> = 2 powi (bitlen a)" using p by (simp add: power_int_def)
  finally show "of_int a < (2::rat) powi (bitlen a)" .
qed

lemma ilog2_bounds:
  assumes "0 < x"
  shows "2 powi (ilog2 x) \<le> x \<and> x < 2 powi (ilog2 x + 1)"
proof -
  obtain a b where q: "quotient_of x = (a, b)" by (cases "quotient_of x")
  have bpos: "0 < b" using q by (rule quotient_of_denom_pos)
  have xe: "x = of_int a / of_int b" using q by (rule quotient_of_div)
  have apos: "0 < a" using assms bpos xe by (simp add: zero_less_divide_iff)
  define k where "k = bitlen a - bitlen b"
  note A = bitlen_powi[OF apos] and B = bitlen_powi[OF bpos]
  have bq: "(0::rat) < of_int b" using bpos by simp
  have up: "x < 2 powi (k + 1)"
  proof -
    have "of_int a < (2::rat) powi (bitlen a)" by (rule A(2))
    also have "\<dots> = 2 powi (k + 1) * 2 powi (bitlen b - 1)"
      by (simp add: k_def power_int_add[symmetric])
    also have "\<dots> \<le> 2 powi (k + 1) * of_int b"
      using B(1) by (intro mult_left_mono) auto
    finally show ?thesis using bq by (simp add: xe pos_divide_less_eq)
  qed
  have lo: "2 powi (k - 1) < x"
  proof -
    have "2 powi (k - 1) * of_int b < (2::rat) powi (k - 1) * 2 powi (bitlen b)"
      using B(2) by (intro mult_strict_left_mono) auto
    also have "\<dots> = 2 powi (bitlen a - 1)"
      by (simp add: k_def power_int_add[symmetric])
    also have "\<dots> \<le> of_int a" by (rule A(1))
    finally show ?thesis using bq by (simp add: xe pos_less_divide_eq)
  qed
  show ?thesis
  proof (cases "2 powi k \<le> x")
    case True
    then have "ilog2 x = k" by (simp add: ilog2_def q k_def Let_def)
    then show ?thesis using True up by simp
  next
    case False
    then have "ilog2 x = k - 1" by (simp add: ilog2_def q k_def Let_def)
    then show ?thesis using False lo by simp
  qed
qed

lemma pow2_less_imp:
  assumes "(2::rat) powi m < 2 powi n"
  shows "m < n"
proof (rule ccontr)
  assume "\<not> m < n"
  then have "n \<le> m" by simp
  then have "(2::rat) powi n \<le> 2 powi m" by (intro power_int_increasing) auto
  then show False using assms by simp
qed

lemma pow2_shift: "(2::rat) powi (e + int k) = 2 ^ k * 2 powi e"
proof -
  have "(2::rat) powi (e + int k) = 2 powi e * 2 powi (int k)"
    by (rule power_int_add) simp
  then show ?thesis by (simp add: mult.commute)
qed

lemma ilog2_unique:
  assumes "2 powi l \<le> x" "x < 2 powi (l + 1)"
  shows "ilog2 x = l"
proof -
  have xpos: "0 < x" using assms(1) by (rule less_le_trans[rotated]) simp
  note B = ilog2_bounds[OF xpos]
  have "(2::rat) powi l < 2 powi (ilog2 x + 1)" using assms(1) B by linarith
  then have 1: "l < ilog2 x + 1" by (rule pow2_less_imp)
  have "(2::rat) powi (ilog2 x) < 2 powi (l + 1)" using assms(2) B by linarith
  then have 2: "ilog2 x < l + 1" by (rule pow2_less_imp)
  from 1 2 show ?thesis by simp
qed

lemma ilog2_mono:
  assumes "0 < x" "x \<le> y"
  shows "ilog2 x \<le> ilog2 y"
proof -
  have ypos: "0 < y" using assms by simp
  have "(2::rat) powi (ilog2 x) < 2 powi (ilog2 y + 1)"
    using ilog2_bounds[OF assms(1)] ilog2_bounds[OF ypos] assms(2) by linarith
  then have "ilog2 x < ilog2 y + 1" by (rule pow2_less_imp)
  then show ?thesis by simp
qed

lemma rhe_of_int: "rhe (of_int n) = n"
  by (simp add: rhe_def)

lemma rhe_floor_le: "\<lfloor>x\<rfloor> \<le> rhe x"
  by (simp add: rhe_def Let_def)

lemma rhe_le_floor: "rhe x \<le> \<lfloor>x\<rfloor> + 1"
  by (simp add: rhe_def Let_def)

lemma rhe_ge: "of_int n \<le> x \<Longrightarrow> n \<le> rhe x"
  using rhe_floor_le[of x] by (simp add: le_floor_iff[symmetric])

lemma rhe_le:
  assumes "x \<le> of_int n"
  shows "rhe x \<le> n"
proof (cases "x = of_int n")
  case True
  then show ?thesis by (simp add: rhe_of_int)
next
  case False
  then have "x < of_int n" using assms by simp
  then have "\<lfloor>x\<rfloor> < n" by (simp add: floor_less_iff)
  then show ?thesis using rhe_le_floor[of x] by simp
qed

lemma rhe_mono:
  assumes "x \<le> y"
  shows "rhe x \<le> rhe y"
proof (cases "\<lfloor>x\<rfloor> = \<lfloor>y\<rfloor>")
  case True
  then show ?thesis using assms by (auto simp: rhe_def Let_def)
next
  case False
  then have "\<lfloor>x\<rfloor> + 1 \<le> \<lfloor>y\<rfloor>" using floor_mono[OF assms] by simp
  then show ?thesis using rhe_le_floor[of x] rhe_floor_le[of y] by linarith
qed

lemma rnd_0: "rnd 0 = 0"
  by (simp add: rnd_def)

lemma rnd_minus: "rnd (- x) = - rnd x"
  by (simp add: rnd_def Let_def sgn_minus)

lemma rnd_pos_eq:
  assumes "0 < x"
  shows "rnd x = of_int (rhe (x / 2 powi (max (ilog2 x - 52) (- 1074)))) * 2 powi (max (ilog2 x - 52) (- 1074))"
  using assms by (simp add: rnd_def Let_def)

lemma rnd_nonneg:
  assumes "0 \<le> x"
  shows "0 \<le> rnd x"
proof (cases "x = 0")
  case True
  then show ?thesis by (simp add: rnd_0)
next
  case False
  then have xpos: "0 < x" using assms by simp
  have "(0::rat) \<le> x / 2 powi (max (ilog2 x - 52) (- 1074))" using xpos by simp
  then have "0 \<le> rhe (x / 2 powi (max (ilog2 x - 52) (- 1074)))"
    using rhe_ge[of 0] by simp
  then show ?thesis by (simp add: rnd_pos_eq[OF xpos])
qed

lemma rnd_binade:
  assumes "2 powi (e + 52) \<le> x" "x < 2 powi (e + 53)" "- 1074 \<le> e"
  shows "rnd x = of_int (rhe (x / 2 powi e)) * 2 powi e"
proof -
  have xpos: "0 < x" using assms(1) by (rule less_le_trans[rotated]) simp
  have "ilog2 x = e + 52" using assms(1,2) by (intro ilog2_unique) (simp_all add: add.commute)
  then have "max (ilog2 x - 52) (- 1074) = e" using assms(3) by simp
  then show ?thesis by (simp add: rnd_pos_eq[OF xpos])
qed

lemma rnd_mono_pos:
  assumes "0 < x" "x \<le> y"
  shows "rnd x \<le> rnd y"
proof -
  have ypos: "0 < y" using assms by simp
  define ex where "ex = max (ilog2 x - 52) (- 1074)"
  define ey where "ey = max (ilog2 y - 52) (- 1074)"
  have le: "ex \<le> ey" using ilog2_mono[OF assms] by (simp add: ex_def ey_def)
  have rx: "rnd x = of_int (rhe (x / 2 powi ex)) * 2 powi ex"
    by (simp add: rnd_pos_eq[OF assms(1)] ex_def)
  have ry: "rnd y = of_int (rhe (y / 2 powi ey)) * 2 powi ey"
    by (simp add: rnd_pos_eq[OF ypos] ey_def)
  show ?thesis
  proof (cases "ex = ey")
    case True
    have "x / 2 powi ey \<le> y / 2 powi ey" using assms(2) by (simp add: divide_right_mono)
    then have "rhe (x / 2 powi ey) \<le> rhe (y / 2 powi ey)" by (rule rhe_mono)
    then show ?thesis by (simp add: rx ry True)
  next
    case False
    then have lt: "ex < ey" using le by simp
    then have eyv: "ey = ilog2 y - 52" by (auto simp: ey_def ex_def max_def split: if_splits)
    have "(2::rat) powi (ey + 52) \<le> y" using ilog2_bounds[OF ypos] by (simp add: eyv)
    then have "2 ^ 52 * 2 powi ey \<le> y" using pow2_shift[of ey 52] by simp
    then have "of_int (2 ^ 52) \<le> y / 2 powi ey" by (simp add: pos_le_divide_eq)
    then have "2 ^ 52 \<le> rhe (y / 2 powi ey)" by (rule rhe_ge)
    then have "(of_int (2 ^ 52) :: rat) \<le> of_int (rhe (y / 2 powi ey))" by (simp only: of_int_le_iff)
    then have "of_int (2 ^ 52) * 2 powi ey \<le> rnd y"
      unfolding ry by (intro mult_right_mono) auto
    then have lowy: "2 powi (ey + 52) \<le> rnd y" using pow2_shift[of ey 52] by simp
    have "ilog2 x + 1 \<le> ex + 53" by (simp add: ex_def)
    then have "(2::rat) powi (ilog2 x + 1) \<le> 2 powi (ex + 53)"
      by (intro power_int_increasing) auto
    then have "x < 2 powi (ex + 53)" using ilog2_bounds[OF assms(1)] by linarith
    then have "x < 2 ^ 53 * 2 powi ex" using pow2_shift[of ex 53] by simp
    then have "x / 2 powi ex \<le> of_int (2 ^ 53)" by (simp add: pos_divide_le_eq)
    then have "rhe (x / 2 powi ex) \<le> 2 ^ 53" by (rule rhe_le)
    then have "(of_int (rhe (x / 2 powi ex)) :: rat) \<le> of_int (2 ^ 53)" by (simp only: of_int_le_iff)
    then have "rnd x \<le> of_int (2 ^ 53) * 2 powi ex"
      unfolding rx by (intro mult_right_mono) auto
    also have "\<dots> = 2 powi (ex + 53)" using pow2_shift[of ex 53] by simp
    also have "\<dots> \<le> 2 powi (ey + 52)" using lt by (intro power_int_increasing) auto
    finally show ?thesis using lowy by linarith
  qed
qed

lemma rnd_mono:
  assumes "x \<le> y"
  shows "rnd x \<le> rnd y"
proof -
  consider "0 < x" | "x \<le> 0" "0 \<le> y" | "y < 0" by linarith
  then show ?thesis
  proof cases
    case 1
    then show ?thesis using assms by (rule rnd_mono_pos)
  next
    case 2
    have "rnd x \<le> 0" using rnd_nonneg[of "- x"] 2(1) by (simp add: rnd_minus)
    then show ?thesis using rnd_nonneg[OF 2(2)] by linarith
  next
    case 3
    then have "rnd (- y) \<le> rnd (- x)" using assms by (intro rnd_mono_pos) auto
    then show ?thesis by (simp add: rnd_minus)
  qed
qed

lemma pow2_le_imp:
  assumes "(2::rat) powi m \<le> 2 powi n"
  shows "m \<le> n"
proof (rule ccontr)
  assume "\<not> m \<le> n"
  then have "n < m" by simp
  then have "(2::rat) powi n < 2 powi m" by (intro power_int_strict_increasing) auto
  then show False using assms by simp
qed

lemma rnd_integral:
  assumes "0 < x" "x / 2 powi (max (ilog2 x - 52) (- 1074)) = of_int k"
  shows "rnd x = x"
proof -
  have "rnd x = of_int k * 2 powi (max (ilog2 x - 52) (- 1074))"
    by (simp add: rnd_pos_eq[OF assms(1)] assms(2) rhe_of_int)
  also have "\<dots> = x" by (simp flip: assms(2))
  finally show ?thesis .
qed

lemma rnd_representable_pos:
  assumes "0 < m" "m \<le> 2 ^ 53" "- 1074 \<le> e"
  shows "rnd (of_int m * 2 powi e) = of_int m * 2 powi e"
proof -
  define x :: rat where "x = of_int m * 2 powi e"
  define ex where "ex = max (ilog2 x - 52) (- 1074)"
  have xpos: "0 < x" using assms(1) by (simp add: x_def)
  have "(of_int m :: rat) \<le> of_int (2 ^ 53)" using assms(2) by (simp only: of_int_le_iff)
  then have "x \<le> of_int (2 ^ 53) * 2 powi e" unfolding x_def by (intro mult_right_mono) auto
  then have up: "x \<le> 2 powi (e + 53)" using pow2_shift[of e 53] by simp
  have "(2::rat) powi (ilog2 x) \<le> 2 powi (e + 53)" using ilog2_bounds[OF xpos] up by linarith
  then have L: "ilog2 x \<le> e + 53" by (rule pow2_le_imp)
  have "\<exists>k. x / 2 powi ex = of_int k"
  proof (cases "ex \<le> e")
    case True
    have "(2::rat) powi e = 2 powi (ex + int (nat (e - ex)))" using True by simp
    also have "\<dots> = 2 ^ nat (e - ex) * 2 powi ex" by (rule pow2_shift)
    finally have "x / 2 powi ex = of_int (m * 2 ^ nat (e - ex))" by (simp add: x_def)
    then show ?thesis ..
  next
    case False
    then have exv: "ex = e + 1" and Lv: "ilog2 x = e + 53"
      using L assms(3) by (auto simp: ex_def max_def split: if_splits)
    have "2 powi (e + 53) \<le> x" using ilog2_bounds[OF xpos] by (simp add: Lv)
    then have "x = 2 powi (e + 53)" using up by (rule antisym[rotated])
    then have "x = 2 powi (e + 1 + int 52)" by (simp add: add.commute)
    also have "\<dots> = 2 ^ 52 * 2 powi (e + 1)" by (rule pow2_shift)
    finally have "x / 2 powi ex = of_int (2 ^ 52)" by (simp add: exv)
    then show ?thesis ..
  qed
  then obtain k where "x / 2 powi ex = of_int k" ..
  then have "rnd x = x" unfolding ex_def by (rule rnd_integral[OF xpos])
  then show ?thesis by (simp add: x_def)
qed

lemma rnd_representable:
  assumes "\<bar>m\<bar> \<le> 2 ^ 53" "- 1074 \<le> e"
  shows "rnd (of_int m * 2 powi e) = of_int m * 2 powi e"
proof -
  consider "0 < m" | "m = 0" | "m < 0" by linarith
  then show ?thesis
  proof cases
    case 1
    then show ?thesis using assms by (intro rnd_representable_pos) auto
  next
    case 2
    then show ?thesis by (simp add: rnd_0)
  next
    case 3
    then have "rnd (of_int (- m) * 2 powi e) = of_int (- m) * 2 powi e"
      using assms by (intro rnd_representable_pos) auto
    then show ?thesis using rnd_minus[of "of_int m * 2 powi e"] by simp
  qed
qed

lemma rnd_of_int:
  assumes "\<bar>n\<bar> \<le> 2 ^ 53"
  shows "rnd (of_int n) = of_int n"
  using rnd_representable[OF assms, of 0] by simp

lemma floor_rat_numeral_div:
  "\<lfloor>(numeral a :: rat) / numeral b\<rfloor> = numeral a div numeral b"
  using floor_divide_of_int_eq[of "numeral a" "numeral b", where ?'a = rat] by simp

section \<open>Evaluation and the equations of a tick\<close>

lemma tenth_val: "tenth = 3602879701896397 / 36028797018963968"
  unfolding tenth_def
  by (subst rnd_binade[where e = "-56"]) (simp_all add: rhe_def Let_def floor_rat_numeral_div)

lemma hundredth_val: "hundredth = 5764607523034235 / 576460752303423488"
  unfolding hundredth_def
  by (subst rnd_binade[where e = "-59"]) (simp_all add: rhe_def Let_def floor_rat_numeral_div)

lemma rnd_numeral: "numeral k \<le> (2::int) ^ 53 \<Longrightarrow> rnd (numeral k) = numeral k"
  using rnd_of_int[of "numeral k"] by simp

lemma rnd_1: "rnd 1 = 1"
  using rnd_of_int[of 1] by simp

lemma findMuteButton_empty: "findMuteButton [] = None"
  by (simp add: findMuteButton_def selectors_def fallbackSelectors_def querySelector_def querySelectorAll_def)

lemma findMuteButton_mic: "findMuteButton [micButton m] = Some (micButton m)"
  by (simp add: findMuteButton_def selectors_def fallbackSelectors_def querySelector_def
      querySelectorAll_def micButton_def isMicrophoneButton_def ariaLabel_def utf16_def ja_mic_def)

lemma isButtonMuted_mic: "isButtonMuted (Element (micButton m)) = m"
  by (simp add: isButtonMuted_def micButton_def utf16_def)

lemma volume_255: "calculateAverageVolume [255] = Finite 1"
  by (simp add: calculateAverageVolume_def fl_add_def fl_div_def rnd_numeral rnd_1)

lemma volume_0: "calculateAverageVolume [0] = Finite 0"
  by (simp add: calculateAverageVolume_def fl_add_def fl_div_def rnd_0)

lemma checkMuteState_config:
  "volumeThreshold (checkMuteState s doc t1 t2) = volumeThreshold s"
  "silenceDuration (checkMuteState s doc t1 t2) = silenceDuration s"
  "maxSilenceDuration (checkMuteState s doc t1 t2) = maxSilenceDuration s"
  "unmuteCooldown (checkMuteState s doc t1 t2) = unmuteCooldown s"
  "isMonitoring (checkMuteState s doc t1 t2) = isMonitoring s"
  "enabled (checkMuteState s doc t1 t2) = enabled s"
  "analyser (checkMuteState s doc t1 t2) = analyser s"
  "dataArray (checkMuteState s doc t1 t2) = dataArray s"
  by (simp_all add: checkMuteState_def Let_def split: option.split)

lemma reconciled_config:
  "volumeThreshold (reconciled s r) = volumeThreshold s"
  "silenceDuration (reconciled s r) = silenceDuration s"
  "maxSilenceDuration (reconciled s r) = maxSilenceDuration s"
  "unmuteCooldown (reconciled s r) = unmuteCooldown s"
  "isMonitoring (reconciled s r) = isMonitoring s"
  "enabled (reconciled s r) = enabled s"
  "analyser (reconciled s r) = analyser s"
  "dataArray (reconciled s r) = Some (byteFrequencyData r)"
  by (simp_all add: reconciled_def checkMuteState_config)

lemma isInCooldown_update:
  "isInCooldown (s\<lparr>silenceDuration := d\<rparr>) now = isInCooldown s now"
  by (simp add: isInCooldown_def)

lemma tick_silent:
  assumes "running s"
    and "js_less (calculateAverageVolume (byteFrequencyData r)) (volumeThreshold s)"
  shows "monitorAudioLevel s r =
     (if maxSilenceDuration s \<le> fl_add (silenceDuration s) tenth \<and> \<not> isMuted (reconciled s r)
         \<and> \<not> isInCooldown (reconciled s r) (nowCooldown r)
      then ((reconciled s r)\<lparr>silenceDuration := fl_add (silenceDuration s) tenth,
              originalMuteState := False, isMuted := True\<rparr>, [Mute], Rescheduled)
      else ((reconciled s r)\<lparr>silenceDuration := fl_add (silenceDuration s) tenth\<rparr>, [],
              Rescheduled))"
  using assms
  by (auto simp add: monitorAudioLevel_def running_def Let_def reconciled_config
      isInCooldown_update autoMute_def)

lemma tick_speech:
  assumes "running s"
    and "\<not> js_less (calculateAverageVolume (byteFrequencyData r)) (volumeThreshold s)"
  shows "monitorAudioLevel s r =
     (if isMuted (reconciled s r)
      then ((reconciled s r)\<lparr>silenceDuration := 0, isMuted := False,
              lastUnmuteTime := nowUnmute r\<rparr>, [Unmute], Rescheduled)
      else ((reconciled s r)\<lparr>silenceDuration := 0\<rparr>, [], Rescheduled))"
  using assms
  by (auto simp add: monitorAudioLevel_def running_def Let_def reconciled_config autoUnmute_def)

lemma fl_add_ge:
  assumes "rnd x = x" and "0 \<le> y"
  shows "x \<le> fl_add x y"
proof -
  have "rnd x \<le> rnd (x + y)" using assms(2) by (intro rnd_mono) simp
  then show ?thesis by (simp add: fl_add_def assms(1))
qed

lemma tenth_pos: "0 < tenth"
  by (simp add: tenth_val)

lemma hundredth_pos: "0 < hundredth"
  by (simp add: hundredth_val)

lemma running_started: "running (started\<lparr>silenceDuration := d, isMuted := m, lastMuteState := l\<rparr>)"
  by (simp add: running_def started_def constructed_def)

lemma reconciled_sample:
  "reconciled (started\<lparr>silenceDuration := d, isMuted := m, lastMuteState := l\<rparr>)
     (sampleReadings bytes [micButton m] now)
   = started\<lparr>silenceDuration := d, isMuted := m,
        lastMuteState := m, dataArray := Some bytes, lastUnmuteTime := (if l \<and> \<not> m then now else 0)\<rparr>"
  by (simp add: reconciled_def checkMuteState_def findMuteButton_mic isButtonMuted_mic
      sampleReadings_def Let_def started_def constructed_def)

lemma cooldown_5000:
  "\<not> isInCooldown (started\<lparr>silenceDuration := d, isMuted := m,
        lastMuteState := l, dataArray := Some bytes, lastUnmuteTime := 0\<rparr>) 5000"
  by (simp add: isInCooldown_def fl_sub_def fl_div_def rnd_numeral started_def constructed_def)

lemma run_silence_nonneg_step:
  assumes "0 \<le> silenceDuration s"
  shows "0 \<le> silenceDuration (fst (monitorAudioLevel s r))"
proof -
  have "0 \<le> fl_add (silenceDuration s) tenth"
    unfolding fl_add_def using assms tenth_pos by (intro rnd_nonneg) simp
  then show ?thesis
    using assms
    by (auto simp add: monitorAudioLevel_def Let_def reconciled_config autoMute_def
        autoUnmute_def stopMonitoring_def split: prod.split)
qed

lemma run_step:
  assumes "monitorAudioLevel s r = (s', acts, sch)"
  shows "run s (r # rs) =
     (if sch = Rescheduled then (acts # fst (run s' rs), snd (run s' rs)) else ([acts], s'))"
  using assms by (cases sch) (simp_all split: prod.split)

lemma run_silence_nonneg:
  "0 \<le> silenceDuration s \<Longrightarrow> 0 \<le> silenceDuration (snd (run s rs))"
proof (induction rs arbitrary: s)
  case Nil
  then show ?case by simp
next
  case (Cons r rs)
  obtain s' acts sch where t: "monitorAudioLevel s r = (s', acts, sch)"
    by (cases "monitorAudioLevel s r")
  have "0 \<le> silenceDuration s'"
    using run_silence_nonneg_step[OF Cons.prems, of r] by (simp add: t)
  then have "0 \<le> silenceDuration (snd (run s' rs))" by (rule Cons.IH)
  then show ?case
    using \<open>0 \<le> silenceDuration s'\<close> by (simp add: run_step[OF t] del: run.simps)
qed

lemma u_tick_silent:
  assumes "u_isMonitoring u"
    and "js_less (calculateAverageVolume freq) (u_volumeThreshold u)"
  shows "u_silenceDuration (fst (u_monitorAudioLevel u freq doc)) = fl_add (u_silenceDuration u) tenth"
  using assms
  by (simp add: u_monitorAudioLevel_def Let_def u_checkMuteState_def u_autoMute_def
      split: prod.split option.split)

lemma u_tick_speech:
  assumes "u_isMonitoring u"
    and "\<not> js_less (calculateAverageVolume freq) (u_volumeThreshold u)"
  shows "u_silenceDuration (fst (u_monitorAudioLevel u freq doc)) = 0"
  using assms
  by (simp add: u_monitorAudioLevel_def Let_def u_checkMuteState_def u_autoUnmute_def
      split: prod.split option.split)

lemma rnd_tenth: "rnd tenth = tenth"
  unfolding tenth_val using rnd_representable[of 3602879701896397 "-55"] by simp

lemma u_check_mic: "u_isMuted (u_checkMuteState u [micButton m]) = m"
  by (simp add: u_checkMuteState_def querySelector_def micButton_def utf16_def ja_mute_def)

lemma labelled_attr: "attrs (labelledButton l) ''data-is-muted'' = None"
  by (simp add: labelledButton_def)

lemma checkMuteState_observed:
  assumes "findMuteButton doc = Some b"
  shows "isMuted (checkMuteState s doc t1 t2) = isButtonMuted (Element b)"
    and "lastMuteState (checkMuteState s doc t1 t2) = isButtonMuted (Element b)"
  using assms by (auto simp add: checkMuteState_def Let_def)

section \<open>The silence counter and the cooldown over several ticks\<close>

lemma silence_step:
  assumes "silenceAfter k = a"
    and "2 powi (e + 52) \<le> a + tenth" and "a + tenth < 2 powi (e + 53)" and "- 1074 \<le> e"
    and "of_int (rhe ((a + tenth) / 2 powi e)) * 2 powi e = b"
  shows "silenceAfter (Suc k) = b"
  using rnd_binade[OF assms(2,3,4)] assms(1,5) by (simp add: fl_add_def)

lemma silenceAfter_1: "silenceAfter 1 = 3602879701896397 / 36028797018963968"
  using silence_step[OF silenceAfter.simps(1), where e = "-56" and b = "3602879701896397 / 36028797018963968"]
  by (simp add: tenth_val rhe_def Let_def floor_rat_numeral_div)

lemma silenceAfter_2: "silenceAfter 2 = 3602879701896397 / 18014398509481984"
  using silence_step[OF silenceAfter_1, where e = "-55" and b = "3602879701896397 / 18014398509481984"]
  by (simp add: tenth_val rhe_def Let_def floor_rat_numeral_div numeral_2_eq_2
      del: silenceAfter.simps)

lemma silenceAfter_3: "silenceAfter 3 = 1351079888211149 / 4503599627370496"
  using silence_step[OF silenceAfter_2, where e = "-54" and b = "1351079888211149 / 4503599627370496"]
  by (simp add: tenth_val rhe_def Let_def floor_rat_numeral_div)

lemma silenceAfter_4: "silenceAfter 4 = 3602879701896397 / 9007199254740992"
  using silence_step[OF silenceAfter_3, where e = "-54" and b = "3602879701896397 / 9007199254740992"]
  by (simp add: tenth_val rhe_def Let_def floor_rat_numeral_div)

lemma silenceAfter_5: "silenceAfter 5 = 1 / 2"
  using silence_step[OF silenceAfter_4, where e = "-53" and b = "1 / 2"]
  by (simp add: tenth_val rhe_def Let_def floor_rat_numeral_div)

lemma silenceAfter_6: "silenceAfter 6 = 5404319552844595 / 9007199254740992"
  using silence_step[OF silenceAfter_5, where e = "-53" and b = "5404319552844595 / 9007199254740992"]
  by (simp add: tenth_val rhe_def Let_def floor_rat_numeral_div)

lemma silenceAfter_7: "silenceAfter 7 = 3152519739159347 / 4503599627370496"
  using silence_step[OF silenceAfter_6, where e = "-53" and b = "3152519739159347 / 4503599627370496"]
  by (simp add: tenth_val rhe_def Let_def floor_rat_numeral_div)

lemma silenceAfter_8: "silenceAfter 8 = 7205759403792793 / 9007199254740992"
  using silence_step[OF silenceAfter_7, where e = "-53" and b = "7205759403792793 / 9007199254740992"]
  by (simp add: tenth_val rhe_def Let_def floor_rat_numeral_div)

lemma silenceAfter_9: "silenceAfter 9 = 2026619832316723 / 2251799813685248"
  using silence_step[OF silenceAfter_8, where e = "-53" and b = "2026619832316723 / 2251799813685248"]
  by (simp add: tenth_val rhe_def Let_def floor_rat_numeral_div)

lemma silenceAfter_10: "silenceAfter 10 = 9007199254740991 / 9007199254740992"
  using silence_step[OF silenceAfter_9, where e = "-53" and b = "9007199254740991 / 9007199254740992"]
  by (simp add: tenth_val rhe_def Let_def floor_rat_numeral_div)

lemma silenceAfter_11: "silenceAfter 11 = 4953959590107545 / 4503599627370496"
  using silence_step[OF silenceAfter_10, where e = "-52" and b = "4953959590107545 / 4503599627370496"]
  by (simp add: tenth_val rhe_def Let_def floor_rat_numeral_div)

lemma silenceAfter_12: "silenceAfter 12 = 5404319552844595 / 4503599627370496"
  using silence_step[OF silenceAfter_11, where e = "-52" and b = "5404319552844595 / 4503599627370496"]
  by (simp add: tenth_val rhe_def Let_def floor_rat_numeral_div)

lemma silenceAfter_13: "silenceAfter 13 = 5854679515581645 / 4503599627370496"
  using silence_step[OF silenceAfter_12, where e = "-52" and b = "5854679515581645 / 4503599627370496"]
  by (simp add: tenth_val rhe_def Let_def floor_rat_numeral_div)

lemma silenceAfter_14: "silenceAfter 14 = 6305039478318695 / 4503599627370496"
  using silence_step[OF silenceAfter_13, where e = "-52" and b = "6305039478318695 / 4503599627370496"]
  by (simp add: tenth_val rhe_def Let_def floor_rat_numeral_div)

lemma silenceAfter_15: "silenceAfter 15 = 6755399441055745 / 4503599627370496"
  using silence_step[OF silenceAfter_14, where e = "-52" and b = "6755399441055745 / 4503599627370496"]
  by (simp add: tenth_val rhe_def Let_def floor_rat_numeral_div)

lemma silenceAfter_16: "silenceAfter 16 = 7205759403792795 / 4503599627370496"
  using silence_step[OF silenceAfter_15, where e = "-52" and b = "7205759403792795 / 4503599627370496"]
  by (simp add: tenth_val rhe_def Let_def floor_rat_numeral_div)

lemma silenceAfter_17: "silenceAfter 17 = 7656119366529845 / 4503599627370496"
  using silence_step[OF silenceAfter_16, where e = "-52" and b = "7656119366529845 / 4503599627370496"]
  by (simp add: tenth_val rhe_def Let_def floor_rat_numeral_div)

lemma silenceAfter_18: "silenceAfter 18 = 8106479329266895 / 4503599627370496"
  using silence_step[OF silenceAfter_17, where e = "-52" and b = "8106479329266895 / 4503599627370496"]
  by (simp add: tenth_val rhe_def Let_def floor_rat_numeral_div)

lemma silenceAfter_19: "silenceAfter 19 = 8556839292003945 / 4503599627370496"
  using silence_step[OF silenceAfter_18, where e = "-52" and b = "8556839292003945 / 4503599627370496"]
  by (simp add: tenth_val rhe_def Let_def floor_rat_numeral_div)

lemma silenceAfter_20: "silenceAfter 20 = 4503599627370497 / 2251799813685248"
  using silence_step[OF silenceAfter_19, where e = "-51" and b = "4503599627370497 / 2251799813685248"]
  by (simp add: tenth_val rhe_def Let_def floor_rat_numeral_div)

lemma silenceAfter_21: "silenceAfter 21 = 2364389804369511 / 1125899906842624"
  using silence_step[OF silenceAfter_20, where e = "-51" and b = "2364389804369511 / 1125899906842624"]
  by (simp add: tenth_val rhe_def Let_def floor_rat_numeral_div)

lemma silenceAfter_22: "silenceAfter 22 = 4953959590107547 / 2251799813685248"
  using silence_step[OF silenceAfter_21, where e = "-51" and b = "4953959590107547 / 2251799813685248"]
  by (simp add: tenth_val rhe_def Let_def floor_rat_numeral_div)

lemma silenceAfter_23: "silenceAfter 23 = 647392446434509 / 281474976710656"
  using silence_step[OF silenceAfter_22, where e = "-51" and b = "647392446434509 / 281474976710656"]
  by (simp add: tenth_val rhe_def Let_def floor_rat_numeral_div)

lemma silenceAfter_24: "silenceAfter 24 = 5404319552844597 / 2251799813685248"
  using silence_step[OF silenceAfter_23, where e = "-51" and b = "5404319552844597 / 2251799813685248"]
  by (simp add: tenth_val rhe_def Let_def floor_rat_numeral_div)

lemma silenceAfter_25: "silenceAfter 25 = 2814749767106561 / 1125899906842624"
  using silence_step[OF silenceAfter_24, where e = "-51" and b = "2814749767106561 / 1125899906842624"]
  by (simp add: tenth_val rhe_def Let_def floor_rat_numeral_div)

lemma silenceAfter_26: "silenceAfter 26 = 5854679515581647 / 2251799813685248"
  using silence_step[OF silenceAfter_25, where e = "-51" and b = "5854679515581647 / 2251799813685248"]
  by (simp add: tenth_val rhe_def Let_def floor_rat_numeral_div)

lemma silenceAfter_27: "silenceAfter 27 = 1519964874237543 / 562949953421312"
  using silence_step[OF silenceAfter_26, where e = "-51" and b = "1519964874237543 / 562949953421312"]
  by (simp add: tenth_val rhe_def Let_def floor_rat_numeral_div)

lemma silenceAfter_28: "silenceAfter 28 = 6305039478318697 / 2251799813685248"
  using silence_step[OF silenceAfter_27, where e = "-51" and b = "6305039478318697 / 2251799813685248"]
  by (simp add: tenth_val rhe_def Let_def floor_rat_numeral_div)

lemma silenceAfter_29: "silenceAfter 29 = 3265109729843611 / 1125899906842624"
  using silence_step[OF silenceAfter_28, where e = "-51" and b = "3265109729843611 / 1125899906842624"]
  by (simp add: tenth_val rhe_def Let_def floor_rat_numeral_div)

lemma silenceAfter_30: "silenceAfter 30 = 6755399441055747 / 2251799813685248"
  using silence_step[OF silenceAfter_29, where e = "-51" and b = "6755399441055747 / 2251799813685248"]
  by (simp add: tenth_val rhe_def Let_def floor_rat_numeral_div)

lemma rnd_idem: "rnd (rnd x) = rnd x"
proof -
  have pos: "rnd (rnd y) = rnd y" if "0 < y" for y
  proof -
    define e where "e = max (ilog2 y - 52) (- 1074)"
    define m where "m = rhe (y / 2 powi e)"
    have ry: "rnd y = of_int m * 2 powi e" by (simp add: rnd_pos_eq[OF that] e_def m_def)
    have "ilog2 y + 1 \<le> e + 53" by (simp add: e_def)
    then have "(2::rat) powi (ilog2 y + 1) \<le> 2 powi (e + 53)"
      by (intro power_int_increasing) auto
    then have "y < 2 powi (e + 53)" using ilog2_bounds[OF that] by linarith
    then have "y < 2 ^ 53 * 2 powi e" using pow2_shift[of e 53] by simp
    then have "y / 2 powi e \<le> of_int (2 ^ 53)" by (simp add: pos_divide_le_eq)
    then have up: "m \<le> 2 ^ 53" unfolding m_def by (rule rhe_le)
    have "(of_int 0 :: rat) \<le> y / 2 powi e" using that by simp
    then have lo: "0 \<le> m" unfolding m_def by (rule rhe_ge)
    have "\<bar>m\<bar> \<le> 2 ^ 53" using up lo by simp
    moreover have "- 1074 \<le> e" by (simp add: e_def)
    ultimately show ?thesis unfolding ry by (rule rnd_representable)
  qed
  consider "0 < x" | "x = 0" | "x < 0" by linarith
  then show ?thesis
  proof cases
    case 1
    then show ?thesis by (rule pos)
  next
    case 2
    then show ?thesis by (simp add: rnd_0)
  next
    case 3
    then have "rnd (rnd (- x)) = rnd (- x)" by (intro pos) simp
    then show ?thesis by (simp add: rnd_minus)
  qed
qed

lemma silenceAfter_binary64: "rnd (silenceAfter n) = silenceAfter n"
  by (cases n) (simp_all add: rnd_0 fl_add_def rnd_idem)

lemma silenceAfter_Suc_ge: "silenceAfter n \<le> silenceAfter (Suc n)"
  using fl_add_ge[OF silenceAfter_binary64, of tenth n] tenth_pos by simp

lemma silenceAfter_mono: "m \<le> n \<Longrightarrow> silenceAfter m \<le> silenceAfter n"
  by (rule lift_Suc_mono_le[of silenceAfter]) (rule silenceAfter_Suc_ge)

lemma silenceAfter_below_3: "n \<le> 29 \<Longrightarrow> silenceAfter n < 3"
  using silenceAfter_mono[of n 29] by (simp add: silenceAfter_29)

lemma silenceAfter_30_reached: "3 \<le> silenceAfter 30"
  by (simp add: silenceAfter_30)

lemma cooldown_later_stamp:
  assumes "t0 \<le> lastUnmuteTime s"
    and "fl_div (fl_sub (of_int now) (of_int t0)) 1000 < unmuteCooldown s"
  shows "isInCooldown s now"
proof -
  have "(of_int now :: rat) - of_int (lastUnmuteTime s) \<le> of_int now - of_int t0"
    using assms(1) by simp
  then have "fl_sub (of_int now) (of_int (lastUnmuteTime s)) \<le> fl_sub (of_int now) (of_int t0)"
    unfolding fl_sub_def by (rule rnd_mono)
  then have "fl_sub (of_int now) (of_int (lastUnmuteTime s)) / 1000
      \<le> fl_sub (of_int now) (of_int t0) / 1000"
    by (simp add: divide_right_mono)
  then have "fl_div (fl_sub (of_int now) (of_int (lastUnmuteTime s))) 1000
      \<le> fl_div (fl_sub (of_int now) (of_int t0)) 1000"
    unfolding fl_div_def by (rule rnd_mono)
  then show ?thesis using assms(2) by (simp add: isInCooldown_def)
qed

lemma checkMuteState_stamp_ge:
  assumes "t0 \<le> lastUnmuteTime s" and "t0 \<le> t1" and "t0 \<le> t2"
  shows "t0 \<le> lastUnmuteTime (checkMuteState s doc t1 t2)"
  using assms by (auto simp add: checkMuteState_def Let_def split: option.split)

lemma tick_keeps_cooldown:
  "unmuteCooldown (fst (monitorAudioLevel s r)) = unmuteCooldown s"
  by (auto simp add: monitorAudioLevel_def Let_def reconciled_config autoMute_def
      autoUnmute_def stopMonitoring_def split: prod.split)

lemma tick_cooling:
  assumes "t0 \<le> lastUnmuteTime s"
    and "t0 \<le> nowCheck1 r" and "t0 \<le> nowCheck2 r" and "t0 \<le> nowUnmute r"
    and "fl_div (fl_sub (of_int (nowCooldown r)) (of_int t0)) 1000 < unmuteCooldown s"
  shows "Mute \<notin> set (fst (snd (monitorAudioLevel s r)))"
    and "t0 \<le> lastUnmuteTime (fst (monitorAudioLevel s r))"
proof -
  have st: "t0 \<le> lastUnmuteTime (reconciled s r)"
    unfolding reconciled_def using assms(1,2,3) by (intro checkMuteState_stamp_ge) simp_all
  have "isInCooldown (reconciled s r) (nowCooldown r)"
    using st assms(5) by (intro cooldown_later_stamp) (simp_all add: reconciled_config)
  then show "Mute \<notin> set (fst (snd (monitorAudioLevel s r)))"
    by (auto simp add: monitorAudioLevel_def Let_def isInCooldown_update autoUnmute_def)
  show "t0 \<le> lastUnmuteTime (fst (monitorAudioLevel s r))"
    using st assms(1,4)
    by (auto simp add: monitorAudioLevel_def Let_def autoMute_def autoUnmute_def
        stopMonitoring_def)
qed

lemma no_mute_while_cooling:
  assumes "t0 \<le> lastUnmuteTime s"
    and "\<forall>r\<in>set rs. t0 \<le> nowCheck1 r \<and> t0 \<le> nowCheck2 r \<and> t0 \<le> nowUnmute r"
    and "\<forall>r\<in>set rs. fl_div (fl_sub (of_int (nowCooldown r)) (of_int t0)) 1000 < unmuteCooldown s"
  shows "\<forall>acts\<in>set (fst (run s rs)). Mute \<notin> set acts"
  using assms
proof (induction rs arbitrary: s)
  case Nil
  then show ?case by simp
next
  case (Cons r rs)
  obtain s' acts sch where t: "monitorAudioLevel s r = (s', acts, sch)"
    by (cases "monitorAudioLevel s r")
  have here: "Mute \<notin> set acts" "t0 \<le> lastUnmuteTime s'"
    using tick_cooling[of t0 s r] Cons.prems by (simp_all add: t)
  have cd: "unmuteCooldown s' = unmuteCooldown s"
    using tick_keeps_cooldown[of s r] by (simp add: t)
  have "\<forall>acts\<in>set (fst (run s' rs)). Mute \<notin> set acts"
    using here(2) Cons.prems(2,3) by (intro Cons.IH) (simp_all add: cd)
  then show ?case using here(1) by (simp add: run_step[OF t] del: run.simps)
qed

lemma reconciled_quiet:
  assumes "\<not> isMuted s" and "\<not> lastMuteState s" and "staysUnmuted r"
  shows "reconciled s r = s\<lparr>dataArray := Some (byteFrequencyData r)\<rparr>"
  using assms
  by (auto simp add: reconciled_def checkMuteState_def staysUnmuted_def Let_def
      split: option.splits)

lemma scenario_run:
  assumes "scenarioA s" and "silenceDuration s = silenceAfter k"
    and "k + length rs = 30" and "rs \<noteq> []"
    and "\<forall>r\<in>set rs. js_less (calculateAverageVolume (byteFrequencyData r)) hundredth
           \<and> staysUnmuted r \<and> \<not> isInCooldown s (nowCooldown r)"
  shows "fst (run s rs) = replicate (length rs - 1) [] @ [[Mute]]"
  using assms
proof (induction rs arbitrary: s k)
  case Nil
  then show ?case by simp
next
  case (Cons r rs)
  let ?s1 = "s\<lparr>dataArray := Some (byteFrequencyData r)\<rparr>"
  have sc: "running s" "volumeThreshold s = hundredth" "maxSilenceDuration s = 3"
    "unmuteCooldown s = 2" "\<not> isMuted s" "\<not> lastMuteState s"
    using Cons.prems(1) by (simp_all add: scenarioA_def)
  have r: "js_less (calculateAverageVolume (byteFrequencyData r)) (volumeThreshold s)"
    "staysUnmuted r" "\<not> isInCooldown s (nowCooldown r)"
    using Cons.prems(5) sc(2) by simp_all
  have rec: "reconciled s r = ?s1" using sc(5,6) r(2) by (rule reconciled_quiet)
  have cool: "\<not> isInCooldown ?s1 (nowCooldown r)" using r(3) by (simp add: isInCooldown_def)
  have next_val: "fl_add (silenceDuration s) tenth = silenceAfter (Suc k)"
    by (simp add: Cons.prems(2))
  show ?case
  proof (cases "rs = []")
    case True
    then have "Suc k = 30" using Cons.prems(3) by simp
    then have "3 \<le> silenceAfter (Suc k)" using silenceAfter_30_reached by simp
    then have "monitorAudioLevel s r =
        (?s1\<lparr>silenceDuration := silenceAfter (Suc k), originalMuteState := False,
             isMuted := True\<rparr>, [Mute], Rescheduled)"
      unfolding tick_silent[OF sc(1) r(1)] rec next_val using sc(3,5) cool by simp
    then show ?thesis using True by (simp add: run_step del: run.simps(2))
  next
    case False
    let ?s' = "?s1\<lparr>silenceDuration := silenceAfter (Suc k)\<rparr>"
    have "Suc k \<le> 29" using Cons.prems(3) False by (cases rs) simp_all
    then have "silenceAfter (Suc k) < 3" by (rule silenceAfter_below_3)
    then have t: "monitorAudioLevel s r = (?s', [], Rescheduled)"
      unfolding tick_silent[OF sc(1) r(1)] rec next_val using sc(3) by simp
    have "fst (run ?s' rs) = replicate (length rs - 1) [] @ [[Mute]]"
    proof (rule Cons.IH[of ?s' "Suc k"])
      show "scenarioA ?s'" using Cons.prems(1) by (simp add: scenarioA_def running_def)
      show "silenceDuration ?s' = silenceAfter (Suc k)" by simp
      show "Suc k + length rs = 30" using Cons.prems(3) by simp
      show "rs \<noteq> []" by (rule False)
      show "\<forall>r\<in>set rs. js_less (calculateAverageVolume (byteFrequencyData r)) hundredth
           \<and> staysUnmuted r \<and> \<not> isInCooldown ?s' (nowCooldown r)"
        using Cons.prems(5) by (simp add: isInCooldown_def)
    qed
    moreover have "[] # replicate (length rs - 1) [] = replicate (length rs) ([]::action list)"
      using False by (cases rs) simp_all
    ultimately show ?thesis by (simp add: run_step[OF t] del: run.simps)
  qed
qed

lemma staysUnmuted_sample: "staysUnmuted (sampleReadings bytes [micButton False] now)"
  by (simp add: staysUnmuted_def sampleReadings_def findMuteButton_mic isButtonMuted_mic)

lemma first_tick_manual:
  assumes "findMuteButton (document ra) = Some b" and "\<not> isButtonMuted (Element b)"
    and "fl_div (fl_sub (of_int (nowCooldown ra)) (of_int (lastUnmuteTime (reconciled m ra)))) 1000
           < unmuteCooldown m"
  shows "Mute \<notin> set (fst (snd (monitorAudioLevel m ra)))"
    and "lastUnmuteTime (reconciled m ra) \<le> lastUnmuteTime (fst (monitorAudioLevel m ra))
         \<or> snd (snd (monitorAudioLevel m ra)) \<noteq> Rescheduled"
proof -
  have bel: "\<not> isMuted (reconciled m ra)"
    using assms(1,2) by (simp add: reconciled_def checkMuteState_observed)
  have "isInCooldown (reconciled m ra) (nowCooldown ra)"
    using assms(3) by (simp add: isInCooldown_def reconciled_config)
  then show "Mute \<notin> set (fst (snd (monitorAudioLevel m ra)))"
    by (auto simp add: monitorAudioLevel_def Let_def isInCooldown_update autoUnmute_def)
  show "lastUnmuteTime (reconciled m ra) \<le> lastUnmuteTime (fst (monitorAudioLevel m ra))
         \<or> snd (snd (monitorAudioLevel m ra)) \<noteq> Rescheduled"
    using bel
    by (auto simp add: monitorAudioLevel_def Let_def autoMute_def autoUnmute_def)
qed

lemma sample_fields:
  "byteFrequencyData (sampleReadings bytes doc now) = bytes"
  "document (sampleReadings bytes doc now) = doc"
  "nowCheck1 (sampleReadings bytes doc now) = now"
  "nowCheck2 (sampleReadings bytes doc now) = now"
  "nowCooldown (sampleReadings bytes doc now) = now"
  "nowUnmute (sampleReadings bytes doc now) = now"
  by (simp_all add: sampleReadings_def)

lemma elapsed_0: "fl_div (fl_sub 10000 10000) 1000 = 0"
  by (simp add: fl_div_def fl_sub_def rnd_0)

lemma elapsed_1: "fl_div (fl_sub 11000 10000) 1000 = 1"
  by (simp add: fl_div_def fl_sub_def rnd_numeral rnd_1)

lemma elapsed_2: "fl_div (fl_sub 12000 10000) 1000 = 2"
  by (simp add: fl_div_def fl_sub_def rnd_numeral)

lemma tick_running:
  assumes "running s"
  shows "running (fst (monitorAudioLevel s r))"
    and "snd (snd (monitorAudioLevel s r)) = Rescheduled"
    and "volumeThreshold (fst (monitorAudioLevel s r)) = volumeThreshold s"
    and "silenceDuration (fst (monitorAudioLevel s r))
           = spec_update (volumeThreshold s) (silenceDuration s)
               (calculateAverageVolume (byteFrequencyData r))"
proof -
  show "running (fst (monitorAudioLevel s r))"
    using assms
    by (cases "js_less (calculateAverageVolume (byteFrequencyData r)) (volumeThreshold s)")
       (simp_all add: tick_silent tick_speech running_def reconciled_config)
  show "snd (snd (monitorAudioLevel s r)) = Rescheduled"
    using assms
    by (cases "js_less (calculateAverageVolume (byteFrequencyData r)) (volumeThreshold s)")
       (simp_all add: tick_silent tick_speech)
  show "volumeThreshold (fst (monitorAudioLevel s r)) = volumeThreshold s"
    using assms
    by (cases "js_less (calculateAverageVolume (byteFrequencyData r)) (volumeThreshold s)")
       (simp_all add: tick_silent tick_speech reconciled_config)
  show "silenceDuration (fst (monitorAudioLevel s r))
           = spec_update (volumeThreshold s) (silenceDuration s)
               (calculateAverageVolume (byteFrequencyData r))"
    using assms
    by (cases "js_less (calculateAverageVolume (byteFrequencyData r)) (volumeThreshold s)")
       (simp_all add: tick_silent tick_speech spec_update_def)
qed

lemma run_accumulates:
  assumes "running s"
  shows "silenceDuration (snd (run s rs)) =
     foldl (spec_update (volumeThreshold s)) (silenceDuration s)
       (map (\<lambda>r. calculateAverageVolume (byteFrequencyData r)) rs)"
  using assms
proof (induction rs arbitrary: s)
  case Nil
  then show ?case by simp
next
  case (Cons r rs)
  obtain s' acts sch where t: "monitorAudioLevel s r = (s', acts, sch)"
    by (cases "monitorAudioLevel s r")
  have f: "running s'" "sch = Rescheduled" "volumeThreshold s' = volumeThreshold s"
    "silenceDuration s' = spec_update (volumeThreshold s) (silenceDuration s)
       (calculateAverageVolume (byteFrequencyData r))"
    using tick_running[OF Cons.prems, of r] by (simp_all add: t)
  from Cons.IH[OF f(1)] show ?case
    by (simp add: run_step[OF t] f del: run.simps)
qed

lemma resume_run:
  assumes "running s" and "\<not> isMuted s" and "\<not> lastMuteState s"
    and "\<forall>r\<in>set (rs @ [r']).
           js_less (calculateAverageVolume (byteFrequencyData r)) (volumeThreshold s)
           \<and> staysUnmuted r"
    and "\<forall>r\<in>set rs. isInCooldown s (nowCooldown r)"
    and "\<not> isInCooldown s (nowCooldown r')"
    and "maxSilenceDuration s \<le> silenceFrom (silenceDuration s) (Suc (length rs))"
  shows "fst (run s (rs @ [r'])) = replicate (length rs) [] @ [[Mute]]"
  using assms
proof (induction rs arbitrary: s)
  case Nil
  let ?s1 = "s\<lparr>dataArray := Some (byteFrequencyData r')\<rparr>"
  have sil: "js_less (calculateAverageVolume (byteFrequencyData r')) (volumeThreshold s)"
    and st: "staysUnmuted r'" using Nil.prems(4) by simp_all
  have rec: "reconciled s r' = ?s1" using Nil.prems(2,3) st by (rule reconciled_quiet)
  have cool: "\<not> isInCooldown ?s1 (nowCooldown r')"
    using Nil.prems(6) by (simp add: isInCooldown_def)
  have "monitorAudioLevel s r' =
      (?s1\<lparr>silenceDuration := fl_add (silenceDuration s) tenth, originalMuteState := False,
           isMuted := True\<rparr>, [Mute], Rescheduled)"
    unfolding tick_silent[OF Nil.prems(1) sil] rec using Nil.prems(2,7) cool by simp
  then show ?case by (simp add: run_step del: run.simps(2))
next
  case (Cons r rs)
  let ?s' = "s\<lparr>dataArray := Some (byteFrequencyData r),
               silenceDuration := fl_add (silenceDuration s) tenth\<rparr>"
  have sil: "js_less (calculateAverageVolume (byteFrequencyData r)) (volumeThreshold s)"
    and st: "staysUnmuted r" using Cons.prems(4) by simp_all
  have rec: "reconciled s r = s\<lparr>dataArray := Some (byteFrequencyData r)\<rparr>"
    using Cons.prems(2,3) st by (rule reconciled_quiet)
  have cool: "isInCooldown (s\<lparr>dataArray := Some (byteFrequencyData r)\<rparr>) (nowCooldown r)"
    using Cons.prems(5) by (simp add: isInCooldown_def)
  have t: "monitorAudioLevel s r = (?s', [], Rescheduled)"
    unfolding tick_silent[OF Cons.prems(1) sil] rec using cool by simp
  have "fst (run ?s' (rs @ [r'])) = replicate (length rs) [] @ [[Mute]]"
  proof (rule Cons.IH)
    show "running ?s'" using Cons.prems(1) by (simp add: running_def)
    show "\<not> isMuted ?s'" using Cons.prems(2) by simp
    show "\<not> lastMuteState ?s'" using Cons.prems(3) by simp
    show "\<forall>r\<in>set (rs @ [r']).
           js_less (calculateAverageVolume (byteFrequencyData r)) (volumeThreshold ?s')
           \<and> staysUnmuted r" using Cons.prems(4) by simp
    show "\<forall>r\<in>set rs. isInCooldown ?s' (nowCooldown r)"
      using Cons.prems(5) by (simp add: isInCooldown_def)
    show "\<not> isInCooldown ?s' (nowCooldown r')"
      using Cons.prems(6) by (simp add: isInCooldown_def)
    show "maxSilenceDuration ?s' \<le> silenceFrom (silenceDuration ?s') (Suc (length rs))"
      using Cons.prems(7) by simp
  qed
  then show ?case by (simp add: run_step[OF t] del: run.simps)
qed

lemma unmute_stamps:
  "Unmute \<in> set (dispatched s r) \<Longrightarrow> lastUnmuteTime (after s r) = nowUnmute r"
  by (auto simp add: dispatched_def after_def monitorAudioLevel_def Let_def autoMute_def
      autoUnmute_def split: if_splits)

lemma rhe_error: "\<bar>of_int (rhe x) - x\<bar> \<le> 1 / 2"
proof -
  have "of_int \<lfloor>x\<rfloor> \<le> x" "x < of_int \<lfloor>x\<rfloor> + 1" by linarith+
  then show ?thesis by (auto simp add: rhe_def Let_def abs_le_iff)
qed

lemma rnd_error_pos:
  assumes "0 < x"
  shows "\<bar>rnd x - x\<bar> \<le> 2 powi (max (ilog2 x - 52) (- 1074)) / 2"
proof -
  define e where "e = max (ilog2 x - 52) (- 1074)"
  have p: "(0::rat) < 2 powi e" by simp
  have "rnd x - x = (of_int (rhe (x / 2 powi e)) - x / 2 powi e) * 2 powi e"
    using p by (simp add: rnd_pos_eq[OF assms] e_def left_diff_distrib)
  then have "\<bar>rnd x - x\<bar> = \<bar>of_int (rhe (x / 2 powi e)) - x / 2 powi e\<bar> * 2 powi e"
    by (simp add: abs_mult)
  also have "\<dots> \<le> (1 / 2) * 2 powi e"
    using rhe_error[of "x / 2 powi e"] by (intro mult_right_mono) auto
  finally show ?thesis by (simp add: e_def)
qed

lemma rnd_rel_error:
  assumes "2 powi (- 1022) \<le> x"
  shows "\<bar>rnd x - x\<bar> \<le> x / 2 ^ 53"
proof -
  have xpos: "0 < x" using assms by (rule less_le_trans[rotated]) simp
  have "(2::rat) powi (- 1022) < 2 powi (ilog2 x + 1)"
    using assms ilog2_bounds[OF xpos] by linarith
  then have "- 1022 < ilog2 x + 1" by (rule pow2_less_imp)
  then have e: "max (ilog2 x - 52) (- 1074) = ilog2 x - 52" by simp
  have "(2::rat) powi (ilog2 x) = 2 powi (ilog2 x - 52 + int 52)" by simp
  also have "\<dots> = 2 ^ 52 * 2 powi (ilog2 x - 52)" by (rule pow2_shift)
  finally have "2 ^ 52 * 2 powi (ilog2 x - 52) \<le> x" using ilog2_bounds[OF xpos] by simp
  then have "2 powi (ilog2 x - 52) / 2 \<le> x / 2 ^ 53" by simp
  then show ?thesis using rnd_error_pos[OF xpos] by (simp add: e)
qed

lemma tenth_normal: "2 powi (- 1022) \<le> tenth"
proof -
  have "(2::rat) powi (- 1022) \<le> 2 powi (- 4)" by (intro power_int_increasing) auto
  also have "\<dots> \<le> tenth" by (simp add: tenth_val power_int_minus)
  finally show ?thesis .
qed

lemma fl_add_tenth_error:
  assumes "0 \<le> x"
  shows "\<bar>fl_add x tenth - (x + tenth)\<bar> \<le> (x + tenth) / 2 ^ 53"
  unfolding fl_add_def using assms tenth_normal by (intro rnd_rel_error) linarith

lemma tenth_error: "\<bar>tenth - 1 / 10\<bar> \<le> 1 / 10 / 2 ^ 53"
  by (simp add: tenth_val)

lemma silenceFrom_shift: "silenceFrom (fl_add x tenth) n = fl_add (silenceFrom x n) tenth"
  by (induction n arbitrary: x) simp_all

lemma silenceFrom_zero: "silenceFrom 0 n = silenceAfter n"
  by (induction n) (simp_all add: silenceFrom_shift)

lemma foldl_silent:
  assumes "\<forall>v\<in>set vs. js_less v thr"
  shows "foldl (spec_update thr) x vs = silenceFrom x (length vs)"
  using assms by (induction vs arbitrary: x) (simp_all add: spec_update_def)

lemma fl_add_02: "fl_add (3602879701896397 / 18014398509481984) tenth
    = 1351079888211149 / 4503599627370496"
proof -
  have "silenceAfter (Suc 2) = fl_add (silenceAfter 2) tenth" by (rule silenceAfter.simps)
  moreover have "Suc 2 = 3" by simp
  ultimately have "silenceAfter 3 = fl_add (silenceAfter 2) tenth" by (simp only:)
  then show ?thesis by (simp only: silenceAfter_2 silenceAfter_3)
qed

lemma silenceAfter_nonneg: "0 \<le> silenceAfter n"
  using silenceAfter_mono[of 0 n] by simp

lemma silenceAfter_drift:
  assumes "n \<le> 2 ^ 53"
  shows "\<bar>silenceAfter n - of_nat n * tenth\<bar> \<le> of_nat n * (of_nat n + 1) * tenth / 2 ^ 53"
  using assms
proof (induction n)
  case 0
  then show ?case by simp
next
  case (Suc n)
  define a where "a = silenceAfter n"
  define N :: rat where "N = of_nat n"
  define u :: rat where "u = 1 / 2 ^ 53"
  have n: "0 \<le> N" "N * u \<le> 1" using Suc.prems
  proof -
    show "0 \<le> N" by (simp add: N_def)
    have "n \<le> 2 ^ 53" using Suc.prems by simp
    then have "(of_nat n :: rat) \<le> of_nat (2 ^ 53)" by (rule of_nat_mono)
    then show "N * u \<le> 1" by (simp add: N_def u_def)
  qed
  have t: "0 < tenth" by (rule tenth_pos)
  have u: "0 < u" by (simp add: u_def)
  have ih: "\<bar>a - N * tenth\<bar> \<le> N * (N + 1) * tenth * u"
    using Suc by (simp add: a_def N_def u_def)
  have a0: "0 \<le> a" by (simp add: a_def silenceAfter_nonneg)
  have step: "\<bar>fl_add a tenth - (a + tenth)\<bar> \<le> (a + tenth) * u"
    using fl_add_tenth_error[OF a0] by (simp add: u_def)
  have "a \<le> N * tenth + N * (N + 1) * tenth * u" using ih by linarith
  then have "(a + tenth) * u \<le> ((N + 1) * tenth + N * (N + 1) * tenth * u) * u"
    using u by (intro mult_right_mono) (simp_all add: algebra_simps)
  also have "\<dots> = (N + 1) * tenth * u * (1 + N * u)" by (simp add: algebra_simps)
  also have "\<dots> \<le> (N + 1) * tenth * u * 2"
    using n t u by (intro mult_left_mono) simp_all
  finally have b: "(a + tenth) * u \<le> 2 * (N + 1) * tenth * u" by (simp add: algebra_simps)
  have "\<bar>fl_add a tenth - (N + 1) * tenth\<bar>
      \<le> \<bar>fl_add a tenth - (a + tenth)\<bar> + \<bar>a - N * tenth\<bar>"
    by (simp add: algebra_simps)
  also have "\<dots> \<le> 2 * (N + 1) * tenth * u + N * (N + 1) * tenth * u"
    using step b ih by linarith
  also have "\<dots> = (N + 1) * (N + 1 + 1) * tenth * u" by (simp add: algebra_simps)
  finally show ?case by (simp add: a_def N_def u_def algebra_simps)
qed

lemma silenceAfter_representable: "rnd (silenceAfter n) = silenceAfter n"
  by (cases n) (simp_all add: fl_add_def rnd_idem rnd_0)

lemma run_silent:
  assumes "running s"
    and "\<forall>r\<in>set rs. js_less (calculateAverageVolume (byteFrequencyData r)) (volumeThreshold s)"
  shows "silenceDuration (snd (run s rs)) = silenceFrom (silenceDuration s) (length rs)"
  using foldl_silent[of "map (\<lambda>r. calculateAverageVolume (byteFrequencyData r)) rs"
      "volumeThreshold s" "silenceDuration s"] assms(2)
  by (simp add: run_accumulates[OF assms(1)])

lemma run_started_silent:
  "silenceDuration (snd (run started (replicate n (sampleReadings [0] [micButton False] 5000))))
     = silenceAfter n"
proof -
  have "running started" by (simp add: running_def started_def constructed_def)
  moreover have "\<forall>r\<in>set (replicate n (sampleReadings [0] [micButton False] 5000)).
      js_less (calculateAverageVolume (byteFrequencyData r)) (volumeThreshold started)"
    by (simp add: sampleReadings_def volume_0 started_def constructed_def hundredth_pos)
  ultimately have "silenceDuration (snd (run started (replicate n (sampleReadings [0] [micButton False] 5000))))
      = silenceFrom (silenceDuration started) n"
    using run_silent[of started "replicate n (sampleReadings [0] [micButton False] 5000)"] by simp
  then show ?thesis by (simp add: started_def constructed_def silenceFrom_zero)
qed


section \<open>The userscript's decisions\<close>

text \<open>
  The userscript has no cooldown. Its mute is a click, so next to the silence counter and
  the belief it needs the button that \<^verbatim>\<open>autoMute\<close> looks for; its unmute needs the
  button that \<^verbatim>\<open>autoUnmute\<close> looks for, and \<^verbatim>\<open>originalMuteState\<close>, which never
  leaves \<open>False\<close>.
\<close>

lemma u_mute_click_iff:
  assumes "u_isMonitoring u" and "0 < u_maxSilenceDuration u"
  shows "(\<exists>b. MuteClick b \<in> set (fst (snd (u_monitorAudioLevel u freq doc)))) =
           (u_maxSilenceDuration u \<le> u_silenceDuration (fst (u_monitorAudioLevel u freq doc))
            \<and> \<not> u_isMuted (u_checkMuteState u doc)
            \<and> u_muteButton doc \<noteq> None)"
  using assms
  by (auto simp add: u_monitorAudioLevel_def Let_def u_checkMuteState_def u_autoMute_def
      u_autoUnmute_def split: option.splits if_splits)

lemma u_speech_click:
  assumes "u_isMonitoring u"
    and "calculateAverageVolume freq = Finite v" and "u_volumeThreshold u \<le> v"
    and "u_isMuted (u_checkMuteState u doc)"
  shows "fst (snd (u_monitorAudioLevel u freq doc)) =
           (if u_originalMuteState u then []
            else case u_unmuteButton doc of None \<Rightarrow> [] | Some b \<Rightarrow> [UnmuteClick b])"
  using assms
  by (auto simp add: u_monitorAudioLevel_def Let_def u_checkMuteState_def u_autoUnmute_def
      split: option.splits)

lemma u_originalMuteState_stays:
  "\<not> u_originalMuteState u \<Longrightarrow> \<not> u_originalMuteState (fst (u_monitorAudioLevel u freq doc))"
  by (auto simp add: u_monitorAudioLevel_def Let_def u_checkMuteState_def u_autoMute_def
      u_autoUnmute_def split: option.splits)

lemma u_mute_click_exact:
  assumes "u_isMonitoring u" and "0 < u_maxSilenceDuration u"
    and "u_maxSilenceDuration u \<le> u_silenceDuration (fst (u_monitorAudioLevel u freq doc))"
    and "\<not> u_isMuted (u_checkMuteState u doc)"
  shows "fst (snd (u_monitorAudioLevel u freq doc)) =
           (case u_muteButton doc of None \<Rightarrow> [] | Some b \<Rightarrow> [MuteClick b])"
  using assms
  by (auto simp add: u_monitorAudioLevel_def Let_def u_checkMuteState_def u_autoMute_def
      u_autoUnmute_def split: option.splits if_splits)

lemma u_muteButton_mic: "u_muteButton [micButton False] = Some (micButton False)"
  by (simp add: u_muteButton_def querySelector_def micButton_def utf16_def)

lemma u_muteButton_empty: "u_muteButton [] = None"
  by (simp add: u_muteButton_def querySelector_def)

lemma u_unmuteButton_mic: "u_unmuteButton [micButton True] = Some (micButton True)"
  by (simp add: u_unmuteButton_def querySelector_def micButton_def utf16_def)

lemma u_unmuteButton_mute_label: "u_unmuteButton [labelledButton ''Mute''] = None"
  by (simp add: u_unmuteButton_def querySelector_def labelledButton_def utf16_def ja_unmute_def)

lemma u_check_mute_label: "u_isMuted (u_checkMuteState u [labelledButton ''Mute''])"
  by (simp add: u_checkMuteState_def querySelector_def labelledButton_def utf16_def ja_mute_def)

lemma u_check_empty: "\<not> u_isMuted (u_checkMuteState u [])"
  by (simp add: u_checkMuteState_def querySelector_def)

lemma u_started_fields:
  "u_isMonitoring (u_started\<lparr>u_silenceDuration := d\<rparr>)"
  "u_volumeThreshold (u_started\<lparr>u_silenceDuration := d\<rparr>) = hundredth"
  "u_maxSilenceDuration (u_started\<lparr>u_silenceDuration := d\<rparr>) = 3"
  "\<not> u_originalMuteState (u_started\<lparr>u_silenceDuration := d\<rparr>)"
  by (simp_all add: u_started_def u_constructed_def)

lemma three_reached: "(3::rat) \<le> fl_add 3 tenth"
  using tenth_pos by (intro fl_add_ge) (simp_all add: rnd_numeral)


section \<open>The claims\<close>

text \<open>
  C1, as the claim states it, fails on the userscript: on a page without the button that
  \<^verbatim>\<open>autoMute\<close> looks for, the silence counter has reached the duration, the belief
  is "not muted", there is no cooldown, and yet no mute is dispatched.
\<close>

theorem mute_without_button_counterexample:
  "u_isMonitoring (u_started\<lparr>u_silenceDuration := 3\<rparr>)
   \<and> u_maxSilenceDuration (u_started\<lparr>u_silenceDuration := 3\<rparr>)
       \<le> u_silenceDuration (fst (u_monitorAudioLevel (u_started\<lparr>u_silenceDuration := 3\<rparr>) [0] []))
   \<and> \<not> u_isMuted (u_checkMuteState (u_started\<lparr>u_silenceDuration := 3\<rparr>) [])
   \<and> fst (snd (u_monitorAudioLevel (u_started\<lparr>u_silenceDuration := 3\<rparr>) [0] [])) = []"
proof -
  let ?u = "u_started\<lparr>u_silenceDuration := 3\<rparr>"
  have sil: "js_less (calculateAverageVolume [0]) (u_volumeThreshold ?u)"
    by (simp add: volume_0 u_started_fields hundredth_pos)
  have reached: "u_maxSilenceDuration ?u \<le> u_silenceDuration (fst (u_monitorAudioLevel ?u [0] []))"
    using three_reached by (simp add: u_tick_silent[OF u_started_fields(1) sil] u_started_fields)
  have "fst (snd (u_monitorAudioLevel ?u [0] [])) = []"
    using u_mute_click_exact[OF u_started_fields(1) _ reached u_check_empty]
    by (simp add: u_started_fields u_muteButton_empty)
  then show ?thesis using reached by (simp add: u_started_fields u_check_empty)
qed

text \<open>
  C1, amended. On every tick of the content script that passes the guards, with a positive
  configured duration, a mute is dispatched exactly when the silence counter of this tick
  has reached \<open>maxSilenceDuration\<close>, the belief after \<^verbatim>\<open>checkMuteState\<close> is
  "not muted" and the cooldown test of the tick fails; then it is the only action of the
  tick. The userscript has no cooldown and mutes by a click: there the mute is dispatched
  exactly when the counter has reached the duration, the belief read from the page is
  "not muted" and the button that \<^verbatim>\<open>autoMute\<close> looks for is found; then the click on
  that button is the only action.
\<close>

theorem mute_dispatched_iff:
  "(running s \<and> 0 < maxSilenceDuration s \<longrightarrow>
      (Mute \<in> set (dispatched s r)) =
         (maxSilenceDuration s \<le> silenceDuration (after s r)
          \<and> \<not> isMuted (reconciled s r)
          \<and> \<not> isInCooldown (reconciled s r) (nowCooldown r))
      \<and> (Mute \<in> set (dispatched s r) \<longrightarrow> dispatched s r = [Mute]))
   \<and> (u_isMonitoring u \<and> 0 < u_maxSilenceDuration u \<longrightarrow>
      (\<exists>b. MuteClick b \<in> set (fst (snd (u_monitorAudioLevel u freq doc)))) =
         (u_maxSilenceDuration u \<le> u_silenceDuration (fst (u_monitorAudioLevel u freq doc))
          \<and> \<not> u_isMuted (u_checkMuteState u doc)
          \<and> u_muteButton doc \<noteq> None)
      \<and> (u_maxSilenceDuration u \<le> u_silenceDuration (fst (u_monitorAudioLevel u freq doc))
           \<and> \<not> u_isMuted (u_checkMuteState u doc)
         \<longrightarrow> fst (snd (u_monitorAudioLevel u freq doc)) =
               (case u_muteButton doc of None \<Rightarrow> [] | Some b \<Rightarrow> [MuteClick b])))"
proof -
  have content: "(Mute \<in> set (dispatched s r)) =
         (maxSilenceDuration s \<le> silenceDuration (after s r)
          \<and> \<not> isMuted (reconciled s r)
          \<and> \<not> isInCooldown (reconciled s r) (nowCooldown r))
      \<and> (Mute \<in> set (dispatched s r) \<longrightarrow> dispatched s r = [Mute])"
    if a: "running s \<and> 0 < maxSilenceDuration s"
  proof (cases "js_less (calculateAverageVolume (byteFrequencyData r)) (volumeThreshold s)")
    case True
    from a have run: "running s" by simp
    show ?thesis
      unfolding dispatched_def after_def tick_silent[OF run True] by simp
  next
    case False
    from a have run: "running s" by simp
    show ?thesis
      unfolding dispatched_def after_def tick_speech[OF run False] using a by simp
  qed
  have script: "(\<exists>b. MuteClick b \<in> set (fst (snd (u_monitorAudioLevel u freq doc)))) =
         (u_maxSilenceDuration u \<le> u_silenceDuration (fst (u_monitorAudioLevel u freq doc))
          \<and> \<not> u_isMuted (u_checkMuteState u doc)
          \<and> u_muteButton doc \<noteq> None)
      \<and> (u_maxSilenceDuration u \<le> u_silenceDuration (fst (u_monitorAudioLevel u freq doc))
           \<and> \<not> u_isMuted (u_checkMuteState u doc)
         \<longrightarrow> fst (snd (u_monitorAudioLevel u freq doc)) =
               (case u_muteButton doc of None \<Rightarrow> [] | Some b \<Rightarrow> [MuteClick b]))"
    if a: "u_isMonitoring u \<and> 0 < u_maxSilenceDuration u"
    using a u_mute_click_iff[of u freq doc] u_mute_click_exact[of u freq doc] by blast
  from content script show ?thesis by blast
qed

theorem mute_dispatched_iff_witness:
  "running (started\<lparr>silenceDuration := 3, isMuted := False, lastMuteState := False\<rparr>)
   \<and> 0 < maxSilenceDuration (started\<lparr>silenceDuration := 3, isMuted := False, lastMuteState := False\<rparr>)
   \<and> dispatched (started\<lparr>silenceDuration := 3, isMuted := False, lastMuteState := False\<rparr>)
        (sampleReadings [0] [micButton False] 5000) = [Mute]
   \<and> u_isMonitoring (u_started\<lparr>u_silenceDuration := 3\<rparr>)
   \<and> 0 < u_maxSilenceDuration (u_started\<lparr>u_silenceDuration := 3\<rparr>)
   \<and> \<not> u_isMuted (u_checkMuteState (u_started\<lparr>u_silenceDuration := 3\<rparr>) [micButton False])
   \<and> u_muteButton [micButton False] = Some (micButton False)
   \<and> fst (snd (u_monitorAudioLevel (u_started\<lparr>u_silenceDuration := 3\<rparr>) [0] [micButton False]))
       = [MuteClick (micButton False)]"
proof -
  let ?s = "started\<lparr>silenceDuration := 3, isMuted := False, lastMuteState := False\<rparr>"
  let ?r = "sampleReadings [0] [micButton False] 5000"
  let ?u = "u_started\<lparr>u_silenceDuration := 3\<rparr>"
  have run: "running ?s" by (rule running_started)
  have pos: "0 < maxSilenceDuration ?s" by (simp add: started_def constructed_def)
  have sil: "js_less (calculateAverageVolume (byteFrequencyData ?r)) (volumeThreshold ?s)"
    by (simp add: sampleReadings_def volume_0 started_def constructed_def hundredth_pos)
  have reached: "maxSilenceDuration ?s \<le> silenceDuration (after ?s ?r)"
    unfolding after_def tick_silent[OF run sil]
    using three_reached by (simp add: started_def constructed_def)
  have bel: "\<not> isMuted (reconciled ?s ?r)" by (simp add: reconciled_sample)
  have cool: "\<not> isInCooldown (reconciled ?s ?r) (nowCooldown ?r)"
    by (simp add: reconciled_sample) (simp add: sampleReadings_def cooldown_5000)
  have upos: "0 < u_maxSilenceDuration ?u" by (simp add: u_started_fields)
  have usil: "js_less (calculateAverageVolume [0]) (u_volumeThreshold ?u)"
    by (simp add: volume_0 u_started_fields hundredth_pos)
  have ureached: "u_maxSilenceDuration ?u
      \<le> u_silenceDuration (fst (u_monitorAudioLevel ?u [0] [micButton False]))"
    using three_reached by (simp add: u_tick_silent[OF u_started_fields(1) usil] u_started_fields)
  have ubel: "\<not> u_isMuted (u_checkMuteState ?u [micButton False])" by (simp add: u_check_mic)
  from mute_dispatched_iff[of ?s ?r ?u "[0]" "[micButton False]"]
  have "dispatched ?s ?r = [Mute]"
    and "fst (snd (u_monitorAudioLevel ?u [0] [micButton False])) = [MuteClick (micButton False)]"
    using run pos reached bel cool u_started_fields(1) upos ureached ubel
    by (simp_all add: u_muteButton_mic)
  then show ?thesis
    using run pos u_started_fields(1) upos ubel by (simp add: u_muteButton_mic)
qed

text \<open>
  C2, as the claim states it, fails: the counter is a binary64 number and the addition of
  \<^verbatim>\<open>0.1\<close> rounds. From a fresh monitor, the third silent tick does not add the tick
  interval (neither the literal \<^verbatim>\<open>0.1\<close> as the language reads it nor the real
  number one tenth), and after ten silent ticks the counter is still below one second.
\<close>

theorem silence_drift_counterexample:
  "running started
   \<and> js_less (calculateAverageVolume (byteFrequencyData (sampleReadings [0] [micButton False] 5000)))
        (volumeThreshold started)
   \<and> silenceDuration (snd (run started (replicate 3 (sampleReadings [0] [micButton False] 5000))))
       - silenceDuration (snd (run started (replicate 2 (sampleReadings [0] [micButton False] 5000))))
       \<noteq> tenth
   \<and> silenceDuration (snd (run started (replicate 3 (sampleReadings [0] [micButton False] 5000))))
       - silenceDuration (snd (run started (replicate 2 (sampleReadings [0] [micButton False] 5000))))
       \<noteq> 1 / 10
   \<and> silenceDuration (snd (run started (replicate 10 (sampleReadings [0] [micButton False] 5000)))) < 1"
proof -
  have "running started" by (simp add: running_def started_def constructed_def)
  moreover have "js_less (calculateAverageVolume (byteFrequencyData (sampleReadings [0] [micButton False] 5000)))
        (volumeThreshold started)"
    by (simp add: sampleReadings_def volume_0 started_def constructed_def hundredth_pos)
  moreover have "silenceAfter 3 - silenceAfter 2 \<noteq> tenth"
    by (simp add: silenceAfter_2 silenceAfter_3 tenth_val)
  moreover have "silenceAfter 3 - silenceAfter 2 \<noteq> 1 / 10"
    by (simp add: silenceAfter_2 silenceAfter_3)
  moreover have "silenceAfter 10 < 1" by (simp add: silenceAfter_10)
  ultimately show ?thesis by (simp only: run_started_silent simp_thms)
qed

text \<open>
  C2, amended. On a tick that passes the guards, a sample strictly below the threshold
  replaces the silence counter by the binary64 sum of the counter and the literal
  \<^verbatim>\<open>0.1\<close>: the sum rounded to the nearest binary64 number. For a counter that is not
  negative the result is within the relative error \<open>2\<^sup>-\<^sup>5\<^sup>3\<close> of the exact sum, and it
  is not below the counter when the counter is a binary64 number; the literal itself is
  within that relative error of one tenth. A sample at or above the threshold (so also one
  equal to it) sets the counter to exactly zero. The userscript does the same. Over any
  sequence of readings the counter of a running monitor is the fold of this update over
  the samples; from a counter that is not negative no sequence makes it negative; and after
  \<open>n\<close> silent ticks from zero the counter differs from \<open>n\<close> times the literal by at most
  \<open>n (n + 1)\<close> times the literal times \<open>2\<^sup>-\<^sup>5\<^sup>3\<close>.
\<close>

theorem silence_accumulator:
  assumes "calculateAverageVolume (byteFrequencyData r) = Finite v"
  shows "(running s \<and> v < volumeThreshold s \<longrightarrow>
            silenceDuration (after s r) = fl_add (silenceDuration s) tenth
            \<and> (0 \<le> silenceDuration s \<longrightarrow>
                 \<bar>silenceDuration (after s r) - (silenceDuration s + tenth)\<bar>
                   \<le> (silenceDuration s + tenth) / 2 ^ 53)
            \<and> (rnd (silenceDuration s) = silenceDuration s \<longrightarrow>
                 silenceDuration s \<le> silenceDuration (after s r)))
       \<and> (running s \<and> volumeThreshold s \<le> v \<longrightarrow> silenceDuration (after s r) = 0)
       \<and> (u_isMonitoring u \<and> v < u_volumeThreshold u \<longrightarrow>
            u_silenceDuration (fst (u_monitorAudioLevel u (byteFrequencyData r) doc))
              = fl_add (u_silenceDuration u) tenth
            \<and> (0 \<le> u_silenceDuration u \<longrightarrow>
                 \<bar>u_silenceDuration (fst (u_monitorAudioLevel u (byteFrequencyData r) doc))
                    - (u_silenceDuration u + tenth)\<bar>
                   \<le> (u_silenceDuration u + tenth) / 2 ^ 53)
            \<and> (rnd (u_silenceDuration u) = u_silenceDuration u \<longrightarrow>
                 u_silenceDuration u
                   \<le> u_silenceDuration (fst (u_monitorAudioLevel u (byteFrequencyData r) doc))))
       \<and> (u_isMonitoring u \<and> u_volumeThreshold u \<le> v \<longrightarrow>
            u_silenceDuration (fst (u_monitorAudioLevel u (byteFrequencyData r) doc)) = 0)
       \<and> \<bar>tenth - 1 / 10\<bar> \<le> 1 / 10 / 2 ^ 53
       \<and> (running s \<longrightarrow>
            silenceDuration (snd (run s rs)) =
              foldl (spec_update (volumeThreshold s)) (silenceDuration s)
                (map (\<lambda>r. calculateAverageVolume (byteFrequencyData r)) rs))
       \<and> (0 \<le> silenceDuration s \<longrightarrow> 0 \<le> silenceDuration (snd (run s rs)))
       \<and> (running s \<and> silenceDuration s = 0 \<and> length rs \<le> 2 ^ 53
          \<and> (\<forall>r\<in>set rs. js_less (calculateAverageVolume (byteFrequencyData r)) (volumeThreshold s))
          \<longrightarrow> \<bar>silenceDuration (snd (run s rs)) - of_nat (length rs) * tenth\<bar>
                \<le> of_nat (length rs) * (of_nat (length rs) + 1) * tenth / 2 ^ 53)"
proof -
  have p1: "silenceDuration (after s r) = fl_add (silenceDuration s) tenth
            \<and> (0 \<le> silenceDuration s \<longrightarrow>
                 \<bar>silenceDuration (after s r) - (silenceDuration s + tenth)\<bar>
                   \<le> (silenceDuration s + tenth) / 2 ^ 53)
            \<and> (rnd (silenceDuration s) = silenceDuration s \<longrightarrow>
                 silenceDuration s \<le> silenceDuration (after s r))"
    if a: "running s \<and> v < volumeThreshold s"
  proof -
    have "js_less (calculateAverageVolume (byteFrequencyData r)) (volumeThreshold s)"
      using a assms by simp
    with a have e: "silenceDuration (after s r) = fl_add (silenceDuration s) tenth"
      by (simp add: after_def tick_silent)
    show ?thesis
      unfolding e using fl_add_tenth_error[of "silenceDuration s"]
        fl_add_ge[of "silenceDuration s" tenth] tenth_pos by simp
  qed
  have p2: "silenceDuration (after s r) = 0" if a: "running s \<and> volumeThreshold s \<le> v"
  proof -
    have "\<not> js_less (calculateAverageVolume (byteFrequencyData r)) (volumeThreshold s)"
      using a assms by simp
    with a show ?thesis by (simp add: after_def tick_speech)
  qed
  have p3: "u_silenceDuration (fst (u_monitorAudioLevel u (byteFrequencyData r) doc))
              = fl_add (u_silenceDuration u) tenth
            \<and> (0 \<le> u_silenceDuration u \<longrightarrow>
                 \<bar>u_silenceDuration (fst (u_monitorAudioLevel u (byteFrequencyData r) doc))
                    - (u_silenceDuration u + tenth)\<bar>
                   \<le> (u_silenceDuration u + tenth) / 2 ^ 53)
            \<and> (rnd (u_silenceDuration u) = u_silenceDuration u \<longrightarrow>
                 u_silenceDuration u
                   \<le> u_silenceDuration (fst (u_monitorAudioLevel u (byteFrequencyData r) doc)))"
    if a: "u_isMonitoring u \<and> v < u_volumeThreshold u"
  proof -
    have e: "u_silenceDuration (fst (u_monitorAudioLevel u (byteFrequencyData r) doc))
        = fl_add (u_silenceDuration u) tenth"
      using a assms by (intro u_tick_silent) simp_all
    show ?thesis
      unfolding e using fl_add_tenth_error[of "u_silenceDuration u"]
        fl_add_ge[of "u_silenceDuration u" tenth] tenth_pos by simp
  qed
  have p4: "u_silenceDuration (fst (u_monitorAudioLevel u (byteFrequencyData r) doc)) = 0"
    if a: "u_isMonitoring u \<and> u_volumeThreshold u \<le> v"
    using a assms by (intro u_tick_speech) simp_all
  have p5: "silenceDuration (snd (run s rs)) =
      foldl (spec_update (volumeThreshold s)) (silenceDuration s)
        (map (\<lambda>r. calculateAverageVolume (byteFrequencyData r)) rs)" if "running s"
    using that by (rule run_accumulates)
  have p6: "0 \<le> silenceDuration (snd (run s rs))" if "0 \<le> silenceDuration s"
    using that by (rule run_silence_nonneg)
  have p7: "\<bar>silenceDuration (snd (run s rs)) - of_nat (length rs) * tenth\<bar>
                \<le> of_nat (length rs) * (of_nat (length rs) + 1) * tenth / 2 ^ 53"
    if a: "running s \<and> silenceDuration s = 0 \<and> length rs \<le> 2 ^ 53
          \<and> (\<forall>r\<in>set rs. js_less (calculateAverageVolume (byteFrequencyData r)) (volumeThreshold s))"
  proof -
    have "silenceDuration (snd (run s rs)) = silenceAfter (length rs)"
      using a run_silent[of s rs] by (simp add: silenceFrom_zero)
    then show ?thesis using a silenceAfter_drift[of "length rs"] by simp
  qed
  from p1 p2 p3 p4 p5 p6 p7 tenth_error show ?thesis by blast
qed

theorem silence_accumulator_witness:
  "calculateAverageVolume (byteFrequencyData (sampleReadings [0] [micButton False] 5000)) = Finite 0
   \<and> running (started\<lparr>silenceDuration := 3602879701896397 / 18014398509481984\<rparr>)
   \<and> 0 < volumeThreshold (started\<lparr>silenceDuration := 3602879701896397 / 18014398509481984\<rparr>)
   \<and> u_isMonitoring (u_started\<lparr>u_silenceDuration := 3602879701896397 / 18014398509481984\<rparr>)
   \<and> 0 < u_volumeThreshold (u_started\<lparr>u_silenceDuration := 3602879701896397 / 18014398509481984\<rparr>)
   \<and> rnd (3602879701896397 / 18014398509481984) = 3602879701896397 / 18014398509481984
   \<and> silenceDuration (after (started\<lparr>silenceDuration := 3602879701896397 / 18014398509481984\<rparr>)
        (sampleReadings [0] [micButton False] 5000)) = 1351079888211149 / 4503599627370496
   \<and> u_silenceDuration (fst (u_monitorAudioLevel
        (u_started\<lparr>u_silenceDuration := 3602879701896397 / 18014398509481984\<rparr>) [0] []))
       = 1351079888211149 / 4503599627370496
   \<and> \<bar>1351079888211149 / 4503599627370496 - (3602879701896397 / 18014398509481984 + tenth)\<bar>
       \<le> (3602879701896397 / 18014398509481984 + tenth) / 2 ^ 53
   \<and> calculateAverageVolume (byteFrequencyData (sampleReadings [255] [micButton False] 5000)) = Finite 1
   \<and> volumeThreshold (started\<lparr>silenceDuration := 3602879701896397 / 18014398509481984\<rparr>) \<le> 1
   \<and> u_volumeThreshold (u_started\<lparr>u_silenceDuration := 3602879701896397 / 18014398509481984\<rparr>) \<le> 1
   \<and> silenceDuration (after (started\<lparr>silenceDuration := 3602879701896397 / 18014398509481984\<rparr>)
        (sampleReadings [255] [micButton False] 5000)) = 0
   \<and> u_silenceDuration (fst (u_monitorAudioLevel
        (u_started\<lparr>u_silenceDuration := 3602879701896397 / 18014398509481984\<rparr>) [255] [])) = 0
   \<and> running started \<and> silenceDuration started = 0
   \<and> silenceDuration (snd (run started (replicate 10 (sampleReadings [0] [micButton False] 5000))))
       = 9007199254740991 / 9007199254740992
   \<and> \<bar>silenceDuration (snd (run started (replicate 10 (sampleReadings [0] [micButton False] 5000))))
        - 10 * tenth\<bar> \<le> 10 * 11 * tenth / 2 ^ 53"
proof -
  let ?ra = "sampleReadings [0] [micButton False] 5000"
  let ?rb = "sampleReadings [255] [micButton False] 5000"
  let ?m = "started\<lparr>silenceDuration := 3602879701896397 / 18014398509481984\<rparr>"
  let ?w = "u_started\<lparr>u_silenceDuration := 3602879701896397 / 18014398509481984\<rparr>"
  have va: "calculateAverageVolume (byteFrequencyData ?ra) = Finite 0"
    by (simp add: sampleReadings_def volume_0)
  have vb: "calculateAverageVolume (byteFrequencyData ?rb) = Finite 1"
    by (simp add: sampleReadings_def volume_255)
  have st: "running ?m" "0 < volumeThreshold ?m" "volumeThreshold ?m \<le> 1"
    "silenceDuration ?m = 3602879701896397 / 18014398509481984"
    "running started" "silenceDuration started = 0" "volumeThreshold started = hundredth"
    by (simp_all add: running_def started_def constructed_def hundredth_val)
  have us: "u_isMonitoring ?w" "0 < u_volumeThreshold ?w" "u_volumeThreshold ?w \<le> 1"
    "u_silenceDuration ?w = 3602879701896397 / 18014398509481984"
    by (simp_all add: u_started_def u_constructed_def hundredth_val)
  have rep: "rnd (3602879701896397 / 18014398509481984) = 3602879701896397 / 18014398509481984"
    using silenceAfter_representable[of 2] by (simp only: silenceAfter_2)
  have ba: "byteFrequencyData ?ra = [0]" and bb: "byteFrequencyData ?rb = [255]"
    by (simp_all add: sampleReadings_def)
  have sil: "\<forall>r\<in>set (replicate 10 ?ra).
      js_less (calculateAverageVolume (byteFrequencyData r)) (volumeThreshold started)"
    by (simp add: sampleReadings_def volume_0 st(7) hundredth_pos)
  note A = silence_accumulator[OF va, of ?m ?w "[]" "[]"]
  note B = silence_accumulator[OF vb, of ?m ?w "[]" "[]"]
  note C = silence_accumulator[OF va, of started u_started "[]" "replicate 10 ?ra"]
  have a1: "silenceDuration (after ?m ?ra) = 1351079888211149 / 4503599627370496"
    using A st(1,2) by (simp add: st(4) fl_add_02)
  have a2: "u_silenceDuration (fst (u_monitorAudioLevel ?w [0] []))
      = 1351079888211149 / 4503599627370496"
    using A us(1,2) by (simp add: us(4) ba fl_add_02)
  have a3: "\<bar>1351079888211149 / 4503599627370496 - (3602879701896397 / 18014398509481984 + tenth)\<bar>
       \<le> (3602879701896397 / 18014398509481984 + tenth) / 2 ^ 53"
    using A st(1,2) a1 by (simp add: st(4))
  have b1: "silenceDuration (after ?m ?rb) = 0" using B st(1,3) by simp
  have b2: "u_silenceDuration (fst (u_monitorAudioLevel ?w [255] [])) = 0"
    using B us(1,3) by (simp add: bb)
  have c1: "\<bar>silenceDuration (snd (run started (replicate 10 ?ra))) - 10 * tenth\<bar>
      \<le> 10 * 11 * tenth / 2 ^ 53"
  proof -
    have h: "running started \<and> silenceDuration started = 0 \<and> length (replicate 10 ?ra) \<le> 2 ^ 53
        \<and> (\<forall>r\<in>set (replicate 10 ?ra).
             js_less (calculateAverageVolume (byteFrequencyData r)) (volumeThreshold started))"
      using st(5,6) sil by simp
    from C h have "\<bar>silenceDuration (snd (run started (replicate 10 ?ra)))
          - of_nat (length (replicate 10 ?ra)) * tenth\<bar>
        \<le> of_nat (length (replicate 10 ?ra)) * (of_nat (length (replicate 10 ?ra)) + 1) * tenth / 2 ^ 53"
      by blast
    then show ?thesis by simp
  qed
  have c2: "silenceDuration (snd (run started (replicate 10 ?ra))) = 9007199254740991 / 9007199254740992"
    by (simp only: run_started_silent silenceAfter_10)
  from va vb st us rep a1 a2 a3 b1 b2 c1 c2 show ?thesis by (simp only: simp_thms)
qed

text \<open>
  C3, as the claim states it, fails on the userscript: on a page whose only control is a
  button labelled "Mute", the belief read from the page is "muted", the sample is above
  the threshold, and no unmute is dispatched, because \<^verbatim>\<open>autoUnmute\<close> finds no button.
\<close>

theorem unmute_without_button_counterexample:
  "u_isMonitoring u_started
   \<and> calculateAverageVolume [255] = Finite 1
   \<and> u_volumeThreshold u_started \<le> 1
   \<and> u_isMuted (u_checkMuteState u_started [labelledButton ''Mute''])
   \<and> fst (snd (u_monitorAudioLevel u_started [255] [labelledButton ''Mute''])) = []"
proof -
  have f: "u_isMonitoring u_started" "u_volumeThreshold u_started \<le> 1"
    "\<not> u_originalMuteState u_started"
    by (simp_all add: u_started_def u_constructed_def hundredth_val)
  have "fst (snd (u_monitorAudioLevel u_started [255] [labelledButton ''Mute''])) = []"
    using u_speech_click[OF f(1) volume_255 f(2) u_check_mute_label]
    by (simp add: f(3) u_unmuteButton_mute_label)
  then show ?thesis using f by (simp add: volume_255 u_check_mute_label)
qed

text \<open>
  C3, amended. On a tick of the content script whose sample is at or above the threshold
  and whose belief after \<^verbatim>\<open>checkMuteState\<close> is "muted", exactly one unmute is
  dispatched, and nothing else: neither the cooldown nor any other field is asked. The
  userscript unmutes by a click: on such a tick its one action is the click on the button
  that \<^verbatim>\<open>autoUnmute\<close> looks for, and it does nothing when that button is not found;
  \<^verbatim>\<open>originalMuteState\<close>, which it also tests, is false from the constructor on and
  never leaves false.
\<close>

theorem speech_unmutes:
  "(running s \<and> calculateAverageVolume (byteFrequencyData r) = Finite v
      \<and> volumeThreshold s \<le> v \<and> isMuted (reconciled s r)
     \<longrightarrow> dispatched s r = [Unmute])
   \<and> (u_isMonitoring u \<and> calculateAverageVolume freq = Finite v'
      \<and> u_volumeThreshold u \<le> v' \<and> u_isMuted (u_checkMuteState u doc)
      \<and> \<not> u_originalMuteState u
     \<longrightarrow> fst (snd (u_monitorAudioLevel u freq doc)) =
           (case u_unmuteButton doc of None \<Rightarrow> [] | Some b \<Rightarrow> [UnmuteClick b]))
   \<and> (\<not> u_originalMuteState u \<longrightarrow>
        \<not> u_originalMuteState (fst (u_monitorAudioLevel u freq doc)))
   \<and> \<not> u_originalMuteState u_constructed"
proof -
  have content: "dispatched s r = [Unmute]"
    if a: "running s \<and> calculateAverageVolume (byteFrequencyData r) = Finite v
      \<and> volumeThreshold s \<le> v \<and> isMuted (reconciled s r)"
  proof -
    have "\<not> js_less (calculateAverageVolume (byteFrequencyData r)) (volumeThreshold s)"
      using a by simp
    from tick_speech[OF _ this] a show ?thesis by (simp add: dispatched_def)
  qed
  have script: "fst (snd (u_monitorAudioLevel u freq doc)) =
           (case u_unmuteButton doc of None \<Rightarrow> [] | Some b \<Rightarrow> [UnmuteClick b])"
    if a: "u_isMonitoring u \<and> calculateAverageVolume freq = Finite v'
      \<and> u_volumeThreshold u \<le> v' \<and> u_isMuted (u_checkMuteState u doc)
      \<and> \<not> u_originalMuteState u"
    using a u_speech_click[of u freq v' doc] by simp
  have stays: "\<not> u_originalMuteState (fst (u_monitorAudioLevel u freq doc))"
    if "\<not> u_originalMuteState u"
    using that by (rule u_originalMuteState_stays)
  have "\<not> u_originalMuteState u_constructed" by (simp add: u_constructed_def)
  with content script stays show ?thesis by blast
qed

theorem speech_unmutes_witness:
  "running (started\<lparr>silenceDuration := 3, isMuted := True, lastMuteState := True\<rparr>)
   \<and> calculateAverageVolume (byteFrequencyData (sampleReadings [255] [micButton True] 5000)) = Finite 1
   \<and> volumeThreshold (started\<lparr>silenceDuration := 3, isMuted := True, lastMuteState := True\<rparr>) \<le> 1
   \<and> isMuted (reconciled (started\<lparr>silenceDuration := 3, isMuted := True, lastMuteState := True\<rparr>)
        (sampleReadings [255] [micButton True] 5000))
   \<and> dispatched (started\<lparr>silenceDuration := 3, isMuted := True, lastMuteState := True\<rparr>)
        (sampleReadings [255] [micButton True] 5000) = [Unmute]
   \<and> u_isMonitoring u_started \<and> u_volumeThreshold u_started \<le> 1
   \<and> u_isMuted (u_checkMuteState u_started [micButton True])
   \<and> \<not> u_originalMuteState u_started
   \<and> fst (snd (u_monitorAudioLevel u_started [255] [micButton True]))
       = [UnmuteClick (micButton True)]"
proof -
  let ?s = "started\<lparr>silenceDuration := 3, isMuted := True, lastMuteState := True\<rparr>"
  let ?r = "sampleReadings [255] [micButton True] 5000"
  have run: "running ?s" by (rule running_started)
  have vol: "calculateAverageVolume (byteFrequencyData ?r) = Finite 1"
    by (simp add: sampleReadings_def volume_255)
  have thr: "volumeThreshold ?s \<le> 1"
    by (simp add: started_def constructed_def hundredth_val)
  have bel: "isMuted (reconciled ?s ?r)" by (simp add: reconciled_sample)
  have f: "u_isMonitoring u_started" "u_volumeThreshold u_started \<le> 1"
    "\<not> u_originalMuteState u_started"
    by (simp_all add: u_started_def u_constructed_def hundredth_val)
  have ubel: "u_isMuted (u_checkMuteState u_started [micButton True])" by (simp add: u_check_mic)
  from speech_unmutes[of ?s ?r 1 u_started "[255]" 1 "[micButton True]"]
  have "dispatched ?s ?r = [Unmute]"
    and "fst (snd (u_monitorAudioLevel u_started [255] [micButton True]))
       = [UnmuteClick (micButton True)]"
    using run vol thr bel f ubel by (simp_all add: volume_255 u_unmuteButton_mic)
  then show ?thesis using run vol thr bel f ubel by simp
qed

text \<open>
  C4. First part: when a tick observes the control unmuted after it was last seen or
  believed muted, the reconciliation stamps the time, and no mute is dispatched on that
  tick nor on any later tick for as long as the cooldown test against the stamp succeeds,
  whatever the silence counter is (the clock is taken not to go back before the stamp). Second part: a silent tick inside the cooldown dispatches
  nothing and still adds the tick interval to the counter. Third part: a silent tick whose
  cooldown test fails, with the belief "not muted" and the counter at the configured
  duration, dispatches the mute; no speech is needed in between. Fourth part, the three
  together: once a manual unmute is recorded and the control stays unmuted, silent ticks
  inside the cooldown dispatch nothing, and the first silent tick whose cooldown test
  fails dispatches the mute when the silence counted through the window has reached the
  duration.
\<close>

theorem cooldown_after_manual_unmute:
  "(findMuteButton (document ra) = Some b \<and> \<not> isButtonMuted (Element b)
      \<and> (lastMuteState m \<or> isMuted m)
      \<and> (\<forall>r\<in>set rs. lastUnmuteTime (reconciled m ra) \<le> nowCheck1 r
             \<and> lastUnmuteTime (reconciled m ra) \<le> nowCheck2 r
             \<and> lastUnmuteTime (reconciled m ra) \<le> nowUnmute r)
      \<and> (\<forall>r\<in>set (ra # rs).
             fl_div (fl_sub (of_int (nowCooldown r))
               (of_int (lastUnmuteTime (reconciled m ra)))) 1000 < unmuteCooldown m)
     \<longrightarrow> (\<forall>acts\<in>set (fst (run m (ra # rs))). Mute \<notin> set acts))
   \<and> (running s \<and> js_less (calculateAverageVolume (byteFrequencyData r)) (volumeThreshold s)
      \<and> isInCooldown (reconciled s r) (nowCooldown r)
     \<longrightarrow> dispatched s r = []
         \<and> silenceDuration (after s r) = fl_add (silenceDuration s) tenth)
   \<and> (running s \<and> js_less (calculateAverageVolume (byteFrequencyData r)) (volumeThreshold s)
      \<and> \<not> isInCooldown (reconciled s r) (nowCooldown r)
      \<and> \<not> isMuted (reconciled s r)
      \<and> maxSilenceDuration s \<le> fl_add (silenceDuration s) tenth
     \<longrightarrow> dispatched s r = [Mute])
   \<and> (running w \<and> \<not> isMuted w \<and> \<not> lastMuteState w
      \<and> (\<forall>q\<in>set (qs @ [q']).
             js_less (calculateAverageVolume (byteFrequencyData q)) (volumeThreshold w)
             \<and> staysUnmuted q)
      \<and> (\<forall>q\<in>set qs. isInCooldown w (nowCooldown q))
      \<and> \<not> isInCooldown w (nowCooldown q')
      \<and> maxSilenceDuration w \<le> silenceFrom (silenceDuration w) (Suc (length qs))
     \<longrightarrow> fst (run w (qs @ [q'])) = replicate (length qs) [] @ [[Mute]])"
proof -
  have p1: "\<forall>acts\<in>set (fst (run m (ra # rs))). Mute \<notin> set acts"
    if a: "findMuteButton (document ra) = Some b \<and> \<not> isButtonMuted (Element b)
      \<and> (lastMuteState m \<or> isMuted m)
      \<and> (\<forall>r\<in>set rs. lastUnmuteTime (reconciled m ra) \<le> nowCheck1 r
             \<and> lastUnmuteTime (reconciled m ra) \<le> nowCheck2 r
             \<and> lastUnmuteTime (reconciled m ra) \<le> nowUnmute r)
      \<and> (\<forall>r\<in>set (ra # rs).
             fl_div (fl_sub (of_int (nowCooldown r))
               (of_int (lastUnmuteTime (reconciled m ra)))) 1000 < unmuteCooldown m)"
  proof -
    obtain s' acts sch where t: "monitorAudioLevel m ra = (s', acts, sch)"
      by (cases "monitorAudioLevel m ra")
    have first: "Mute \<notin> set acts"
      "lastUnmuteTime (reconciled m ra) \<le> lastUnmuteTime s' \<or> sch \<noteq> Rescheduled"
      using first_tick_manual[of ra b m] a by (simp_all add: t)
    have cd: "unmuteCooldown s' = unmuteCooldown m"
      using tick_keeps_cooldown[of m ra] by (simp add: t)
    show ?thesis
    proof (cases "sch = Rescheduled")
      case True
      then have "lastUnmuteTime (reconciled m ra) \<le> lastUnmuteTime s'" using first(2) by simp
      then have "\<forall>acts\<in>set (fst (run s' rs)). Mute \<notin> set acts"
        using a by (intro no_mute_while_cooling[of "lastUnmuteTime (reconciled m ra)"])
          (simp_all add: cd)
      then show ?thesis using first(1) True by (simp add: run_step[OF t] del: run.simps)
    next
      case False
      then show ?thesis using first(1) by (simp add: run_step[OF t] del: run.simps)
    qed
  qed
  have p2: "dispatched s r = [] \<and> silenceDuration (after s r) = fl_add (silenceDuration s) tenth"
    if a: "running s \<and> js_less (calculateAverageVolume (byteFrequencyData r)) (volumeThreshold s)
      \<and> isInCooldown (reconciled s r) (nowCooldown r)"
  proof -
    have "monitorAudioLevel s r =
        ((reconciled s r)\<lparr>silenceDuration := fl_add (silenceDuration s) tenth\<rparr>, [], Rescheduled)"
      using a by (simp add: tick_silent)
    then show ?thesis by (simp add: dispatched_def after_def)
  qed
  have p3: "dispatched s r = [Mute]"
    if a: "running s \<and> js_less (calculateAverageVolume (byteFrequencyData r)) (volumeThreshold s)
      \<and> \<not> isInCooldown (reconciled s r) (nowCooldown r)
      \<and> \<not> isMuted (reconciled s r)
      \<and> maxSilenceDuration s \<le> fl_add (silenceDuration s) tenth"
    using a by (simp add: dispatched_def tick_silent)
  have p4: "fst (run w (qs @ [q'])) = replicate (length qs) [] @ [[Mute]]"
    if a: "running w \<and> \<not> isMuted w \<and> \<not> lastMuteState w
      \<and> (\<forall>q\<in>set (qs @ [q']).
             js_less (calculateAverageVolume (byteFrequencyData q)) (volumeThreshold w)
             \<and> staysUnmuted q)
      \<and> (\<forall>q\<in>set qs. isInCooldown w (nowCooldown q))
      \<and> \<not> isInCooldown w (nowCooldown q')
      \<and> maxSilenceDuration w \<le> silenceFrom (silenceDuration w) (Suc (length qs))"
    using a by (intro resume_run) simp_all
  from p1 p2 p3 p4 show ?thesis by blast
qed

theorem cooldown_after_manual_unmute_witness:
  "findMuteButton (document (sampleReadings [0] [micButton False] 10000)) = Some (micButton False)
   \<and> \<not> isButtonMuted (Element (micButton False))
   \<and> lastMuteState (started\<lparr>silenceDuration := 3, isMuted := True, lastMuteState := True\<rparr>)
   \<and> lastUnmuteTime (reconciled
         (started\<lparr>silenceDuration := 3, isMuted := True, lastMuteState := True\<rparr>)
         (sampleReadings [0] [micButton False] 10000)) = 10000
   \<and> Mute \<notin> set (concat (fst (run
         (started\<lparr>silenceDuration := 3, isMuted := True, lastMuteState := True\<rparr>)
         [sampleReadings [0] [micButton False] 10000, sampleReadings [0] [micButton False] 11000])))
   \<and> running (started\<lparr>silenceDuration := 3, lastUnmuteTime := 10000\<rparr>)
   \<and> isInCooldown (reconciled (started\<lparr>silenceDuration := 3, lastUnmuteTime := 10000\<rparr>)
        (sampleReadings [0] [micButton False] 11000)) 11000
   \<and> dispatched (started\<lparr>silenceDuration := 3, lastUnmuteTime := 10000\<rparr>)
        (sampleReadings [0] [micButton False] 11000) = []
   \<and> silenceDuration (after (started\<lparr>silenceDuration := 3, lastUnmuteTime := 10000\<rparr>)
        (sampleReadings [0] [micButton False] 11000)) = fl_add 3 tenth
   \<and> \<not> isInCooldown (reconciled (started\<lparr>silenceDuration := 3, lastUnmuteTime := 10000\<rparr>)
        (sampleReadings [0] [micButton False] 12000)) 12000
   \<and> dispatched (started\<lparr>silenceDuration := 3, lastUnmuteTime := 10000\<rparr>)
        (sampleReadings [0] [micButton False] 12000) = [Mute]
   \<and> fst (run (started\<lparr>silenceDuration := 3, lastUnmuteTime := 10000\<rparr>)
        [sampleReadings [0] [micButton False] 11000, sampleReadings [0] [micButton False] 12000])
       = [[], [Mute]]"
proof -
  let ?m = "started\<lparr>silenceDuration := 3, isMuted := True, lastMuteState := True\<rparr>"
  let ?s = "started\<lparr>silenceDuration := 3, lastUnmuteTime := 10000\<rparr>"
  let ?ra = "sampleReadings [0] [micButton False] 10000"
  let ?rb = "sampleReadings [0] [micButton False] 11000"
  let ?rc = "sampleReadings [0] [micButton False] 12000"
  have found: "findMuteButton (document ?ra) = Some (micButton False)"
    by (simp add: sample_fields findMuteButton_mic)
  have obs: "\<not> isButtonMuted (Element (micButton False))" by (simp add: isButtonMuted_mic)
  have s0: "lastMuteState ?m" "unmuteCooldown ?m = 2"
    by (simp_all add: started_def constructed_def)
  have s: "running ?s" "volumeThreshold ?s = hundredth" "maxSilenceDuration ?s = 3"
    "silenceDuration ?s = 3" "\<not> isMuted ?s" "\<not> lastMuteState ?s"
    "unmuteCooldown ?s = 2" "lastUnmuteTime ?s = 10000"
    by (simp_all add: running_def started_def constructed_def)
  have rec: "reconciled ?s (sampleReadings [0] [micButton False] now)
      = ?s\<lparr>dataArray := Some [0]\<rparr>" for now
    using reconciled_quiet[OF s(5,6) staysUnmuted_sample, of "[0]" now]
    by (simp add: sample_fields)
  have quiet: "js_less (calculateAverageVolume (byteFrequencyData (sampleReadings [0] d now)))
      (volumeThreshold ?s)" for d now
    by (simp add: sample_fields volume_0 s(2) hundredth_pos)
  have c1: "isInCooldown (reconciled ?s ?rb) 11000"
    unfolding rec by (simp add: isInCooldown_def started_def constructed_def elapsed_1)
  have c2: "\<not> isInCooldown (reconciled ?s ?rc) 12000"
    unfolding rec by (simp add: isInCooldown_def started_def constructed_def elapsed_2)
  have bel: "\<not> isMuted (reconciled ?s ?rc)" unfolding rec using s(5) by simp
  have reach: "maxSilenceDuration ?s \<le> fl_add (silenceDuration ?s) tenth"
    unfolding s(3,4) using tenth_pos by (intro fl_add_ge) (simp_all add: rnd_numeral)
  have stamp: "lastUnmuteTime (reconciled ?m ?ra) = 10000"
    by (simp add: reconciled_def checkMuteState_def sample_fields findMuteButton_mic
        isButtonMuted_mic Let_def)
  have i1: "Mute \<notin> set (concat (fst (run ?m [?ra, ?rb])))"
    using cooldown_after_manual_unmute[of ?ra "micButton False" ?m "[?rb]" ?s ?rb ?s "[?rb]" ?rc]
      found obs s0(1)
    by (simp add: stamp sample_fields s0(2) elapsed_0 elapsed_1 del: run.simps)
  have i2: "dispatched ?s ?rb = [] \<and> silenceDuration (after ?s ?rb) = fl_add 3 tenth"
    using cooldown_after_manual_unmute[of ?ra "micButton False" ?m "[?rb]" ?s ?rb ?s "[?rb]" ?rc]
      s(1) quiet[of "[micButton False]" 11000] c1
    by (simp add: sample_fields s(4))
  have i3: "dispatched ?s ?rc = [Mute]"
    using cooldown_after_manual_unmute[of ?ra "micButton False" ?m "[?rb]" ?s ?rc ?s "[?rb]" ?rc]
      s(1) quiet[of "[micButton False]" 12000] c2 bel reach
    by (simp add: sample_fields)
  have cb: "isInCooldown ?s 11000" and cc: "\<not> isInCooldown ?s 12000"
    by (simp_all add: isInCooldown_def started_def constructed_def elapsed_1 elapsed_2)
  have "rnd (fl_add 3 tenth) = fl_add 3 tenth" by (simp add: fl_add_def rnd_idem)
  then have "fl_add 3 tenth \<le> fl_add (fl_add 3 tenth) tenth"
    using tenth_pos by (intro fl_add_ge) simp_all
  moreover have "(3::rat) \<le> fl_add 3 tenth"
    using tenth_pos by (intro fl_add_ge) (simp_all add: rnd_numeral)
  ultimately have far: "maxSilenceDuration ?s \<le> silenceFrom (silenceDuration ?s) (Suc (length [?rb]))"
    by (simp add: s(3,4))
  have i4: "fst (run ?s [?rb, ?rc]) = [[], [Mute]]"
    using cooldown_after_manual_unmute[of ?ra "micButton False" ?m "[?rb]" ?s ?rc ?s "[?rb]" ?rc]
      s(1,5,6) quiet[of "[micButton False]" 11000] quiet[of "[micButton False]" 12000]
      staysUnmuted_sample[of "[0]" 11000] staysUnmuted_sample[of "[0]" 12000] cb cc far
    by (simp add: sample_fields del: run.simps)
  from found obs s0(1) stamp s(1) c1 c2 i1 i2 i3 i4 show ?thesis by simp
qed

text \<open>
  C5. When \<^verbatim>\<open>checkMuteState\<close> finds the control, its belief and its record of the last
  observation both become the observed state. When the observation goes from muted to
  unmuted, the last-unmute time is stamped with the clock value read in that call: the
  second reading when the previous observation was "muted", the first reading when only
  the belief was. The call runs before any dispatch of its tick.
\<close>

theorem manual_unmute_recorded:
  assumes "findMuteButton doc = Some b"
  shows "isMuted (checkMuteState s doc t1 t2) = isButtonMuted (Element b)
       \<and> lastMuteState (checkMuteState s doc t1 t2) = isButtonMuted (Element b)
       \<and> (lastMuteState s \<and> \<not> isButtonMuted (Element b) \<longrightarrow>
            lastUnmuteTime (checkMuteState s doc t1 t2) = t2)
       \<and> (isMuted s \<and> \<not> lastMuteState s \<and> \<not> isButtonMuted (Element b) \<longrightarrow>
            lastUnmuteTime (checkMuteState s doc t1 t2) = t1)"
  using assms by (auto simp add: checkMuteState_def Let_def)

theorem manual_unmute_recorded_witness:
  "findMuteButton [micButton False] = Some (micButton False)
   \<and> lastMuteState (started\<lparr>isMuted := True, lastMuteState := True\<rparr>)
   \<and> \<not> isButtonMuted (Element (micButton False))
   \<and> lastUnmuteTime (checkMuteState (started\<lparr>isMuted := True, lastMuteState := True\<rparr>)
        [micButton False] 7000 7001) = 7001
   \<and> \<not> isMuted (checkMuteState (started\<lparr>isMuted := True, lastMuteState := True\<rparr>)
        [micButton False] 7000 7001)"
proof -
  have found: "findMuteButton [micButton False] = Some (micButton False)"
    by (rule findMuteButton_mic)
  from manual_unmute_recorded[OF found,
      of "started\<lparr>isMuted := True, lastMuteState := True\<rparr>" 7000 7001]
  show ?thesis by (simp add: found isButtonMuted_mic)
qed

text \<open>
  C6. With the threshold \<^verbatim>\<open>0.01\<close>, the duration 3 s, the cooldown 2 s, a zero silence
  counter, a control believed and last seen unmuted that stays unmuted, and no tick inside
  the cooldown, thirty ticks with samples below the threshold dispatch nothing on the
  first twenty-nine ticks and exactly one mute on the thirtieth. The counter is the
  binary64 sum of thirty times \<^verbatim>\<open>0.1\<close>, which is just above 3.
\<close>

theorem thirty_silent_ticks:
  assumes "running s" and "volumeThreshold s = hundredth" and "maxSilenceDuration s = 3"
    and "unmuteCooldown s = 2" and "silenceDuration s = 0"
    and "\<not> isMuted s" and "\<not> lastMuteState s"
    and "length rs = 30"
    and "\<forall>r\<in>set rs. js_less (calculateAverageVolume (byteFrequencyData r)) hundredth"
    and "\<forall>r\<in>set rs. staysUnmuted r"
    and "\<forall>r\<in>set rs. \<not> isInCooldown s (nowCooldown r)"
  shows "fst (run s rs) = replicate 29 [] @ [[Mute]]"
proof -
  have "scenarioA s" using assms(1,2,3,4,6,7) by (simp add: scenarioA_def)
  moreover have "silenceDuration s = silenceAfter 0" using assms(5) by simp
  moreover have "0 + length rs = 30" "rs \<noteq> []" using assms(8) by auto
  ultimately have "fst (run s rs) = replicate (length rs - 1) [] @ [[Mute]]"
    using assms(9,10,11) by (intro scenario_run) simp_all
  then show ?thesis by (simp add: assms(8))
qed

theorem thirty_silent_ticks_witness:
  "running started \<and> volumeThreshold started = hundredth \<and> maxSilenceDuration started = 3
   \<and> unmuteCooldown started = 2 \<and> silenceDuration started = 0
   \<and> \<not> isMuted started \<and> \<not> lastMuteState started
   \<and> length (replicate 30 (sampleReadings [0] [micButton False] 5000)) = 30
   \<and> js_less (calculateAverageVolume (byteFrequencyData (sampleReadings [0] [micButton False] 5000)))
        hundredth
   \<and> staysUnmuted (sampleReadings [0] [micButton False] 5000)
   \<and> \<not> isInCooldown started (nowCooldown (sampleReadings [0] [micButton False] 5000))
   \<and> fst (run started (replicate 30 (sampleReadings [0] [micButton False] 5000)))
       = replicate 29 [] @ [[Mute]]"
proof -
  let ?r = "sampleReadings [0] [micButton False] 5000"
  have st: "running started" "volumeThreshold started = hundredth" "maxSilenceDuration started = 3"
    "unmuteCooldown started = 2" "silenceDuration started = 0"
    "\<not> isMuted started" "\<not> lastMuteState started"
    by (simp_all add: running_def started_def constructed_def)
  have len: "length (replicate 30 ?r) = 30" by simp
  have v: "js_less (calculateAverageVolume (byteFrequencyData ?r)) hundredth"
    by (simp add: sampleReadings_def volume_0 hundredth_pos)
  have u: "staysUnmuted ?r" by (rule staysUnmuted_sample)
  have c: "\<not> isInCooldown started (nowCooldown ?r)"
    by (simp add: isInCooldown_def fl_sub_def fl_div_def rnd_numeral started_def
        constructed_def sampleReadings_def)
  have "fst (run started (replicate 30 ?r)) = replicate 29 [] @ [[Mute]]"
    using v u c by (intro thirty_silent_ticks st len) simp_all
  then show ?thesis using st len v u c by simp
qed

text \<open>
  C7. \<^verbatim>\<open>autoMute\<close> on a state that believes "muted" and \<^verbatim>\<open>autoUnmute\<close> on a
  state that believes "not muted" return the state unchanged and dispatch nothing. After a
  \<^verbatim>\<open>checkMuteState\<close> that found the control, the belief is the observed state, so a mute
  on a control observed muted and an unmute on a control observed unmuted are no-ops. The
  userscript, which reads its belief from the page on every tick, behaves the same.
\<close>

theorem dispatch_idempotent:
  "(isMuted s \<longrightarrow> autoMute s = (s, []))
   \<and> (\<not> isMuted s \<longrightarrow> autoUnmute s now = (s, []))
   \<and> (findMuteButton doc = Some b \<and> isButtonMuted (Element b) \<longrightarrow>
        autoMute (checkMuteState s doc t1 t2) = (checkMuteState s doc t1 t2, []))
   \<and> (findMuteButton doc = Some b \<and> \<not> isButtonMuted (Element b) \<longrightarrow>
        autoUnmute (checkMuteState s doc t1 t2) now = (checkMuteState s doc t1 t2, []))
   \<and> (u_isMuted (u_checkMuteState u doc) \<longrightarrow>
        u_autoMute (u_checkMuteState u doc) doc = (u_checkMuteState u doc, []))
   \<and> (\<not> u_isMuted (u_checkMuteState u doc) \<longrightarrow>
        u_autoUnmute (u_checkMuteState u doc) doc = (u_checkMuteState u doc, []))"
proof (intro conjI impI)
  show "autoMute s = (s, [])" if "isMuted s" using that by (simp add: autoMute_def)
  show "autoUnmute s now = (s, [])" if "\<not> isMuted s" using that by (simp add: autoUnmute_def)
  show "autoMute (checkMuteState s doc t1 t2) = (checkMuteState s doc t1 t2, [])"
    if "findMuteButton doc = Some b \<and> isButtonMuted (Element b)"
    using that checkMuteState_observed[of doc b s t1 t2] by (simp add: autoMute_def)
  show "autoUnmute (checkMuteState s doc t1 t2) now = (checkMuteState s doc t1 t2, [])"
    if "findMuteButton doc = Some b \<and> \<not> isButtonMuted (Element b)"
    using that checkMuteState_observed[of doc b s t1 t2] by (simp add: autoUnmute_def)
  show "u_autoMute (u_checkMuteState u doc) doc = (u_checkMuteState u doc, [])"
    if "u_isMuted (u_checkMuteState u doc)"
    using that by (simp add: u_autoMute_def split: option.split)
  show "u_autoUnmute (u_checkMuteState u doc) doc = (u_checkMuteState u doc, [])"
    if "\<not> u_isMuted (u_checkMuteState u doc)"
    using that by (simp add: u_autoUnmute_def split: option.split)
qed

theorem dispatch_idempotent_witness:
  "isMuted (started\<lparr>isMuted := True\<rparr>)
   \<and> autoMute (started\<lparr>isMuted := True\<rparr>) = (started\<lparr>isMuted := True\<rparr>, [])
   \<and> \<not> isMuted started \<and> autoUnmute started 5000 = (started, [])
   \<and> findMuteButton [micButton True] = Some (micButton True)
   \<and> isButtonMuted (Element (micButton True))
   \<and> autoMute (checkMuteState started [micButton True] 5000 5000)
       = (checkMuteState started [micButton True] 5000 5000, [])
   \<and> findMuteButton [micButton False] = Some (micButton False)
   \<and> \<not> isButtonMuted (Element (micButton False))
   \<and> autoUnmute (checkMuteState (started\<lparr>isMuted := True\<rparr>) [micButton False] 5000 5000) 5000
       = (checkMuteState (started\<lparr>isMuted := True\<rparr>) [micButton False] 5000 5000, [])
   \<and> u_isMuted (u_checkMuteState u_started [micButton True])
   \<and> u_autoMute (u_checkMuteState u_started [micButton True]) [micButton True]
       = (u_checkMuteState u_started [micButton True], [])
   \<and> \<not> u_isMuted (u_checkMuteState u_started [micButton False])
   \<and> u_autoUnmute (u_checkMuteState u_started [micButton False]) [micButton False]
       = (u_checkMuteState u_started [micButton False], [])"
proof -
  have m: "isMuted (started\<lparr>isMuted := True\<rparr>)" "\<not> isMuted started"
    by (simp_all add: started_def constructed_def)
  from dispatch_idempotent[of "started\<lparr>isMuted := True\<rparr>" 5000 "[micButton True]"
      "micButton True" 5000 5000 u_started]
    dispatch_idempotent[of started 5000 "[micButton False]" "micButton False" 5000 5000 u_started]
    dispatch_idempotent[of started 5000 "[micButton True]" "micButton True" 5000 5000 u_started]
    dispatch_idempotent[of "started\<lparr>isMuted := True\<rparr>" 5000 "[micButton False]"
      "micButton False" 5000 5000 u_started]
  show ?thesis
    using m by (simp add: findMuteButton_mic isButtonMuted_mic u_check_mic)
qed

lemma js_includes_prefix: "js_includes l (p @ q) \<Longrightarrow> js_includes l p"
proof (induction l)
  case Nil
  then show ?case by simp
next
  case (Cons c cs)
  show ?case
  proof (cases "take (length (p @ q)) (c # cs) = p @ q")
    case True
    have "take (length p) (c # cs) = take (length p) (take (length (p @ q)) (c # cs))"
      by (simp add: min_def)
    also have "\<dots> = p" by (simp only: True) simp
    finally show ?thesis by simp
  next
    case False
    with Cons show ?thesis by simp
  qed
qed

lemma ja_unmute_has_ja_mute: "js_includes l ja_unmute \<Longrightarrow> js_includes l ja_mute"
proof -
  have "ja_unmute = ja_mute @ [0x89E3, 0x9664]" by (simp add: ja_unmute_def ja_mute_def)
  then show "js_includes l ja_unmute \<Longrightarrow> js_includes l ja_mute"
    using js_includes_prefix[of l ja_mute "[0x89E3, 0x9664]"] by simp
qed

text \<open>
  C8. \<^verbatim>\<open>isButtonMuted\<close> answers from the attribute \<^verbatim>\<open>data-is-muted\<close> when the
  control has it. Without the attribute it answers from the label: "microphone off" gives
  "not muted", "microphone on" and "mute" give "muted", in Japanese and in English, and
  the English "Unmute" gives "not muted". The Japanese label for "unmute" does not: it
  begins with the Japanese word for "mute", the test for "mute" comes first, so every
  label that has the Japanese "unmute" passes the test for "mute", the test for "unmute"
  never decides, and a control without the attribute whose label is the Japanese "unmute"
  is read as "muted". When no label test and no class test applies, and when the read
  throws, the answer is "not muted"; the answer "muted" is only ever given on a positive
  test.
\<close>

theorem isButtonMuted_probes:
  "(attrs b ''data-is-muted'' = Some v \<longrightarrow> isButtonMuted (Element b) = (v = utf16 ''true''))
   \<and> (attrs b ''data-is-muted'' = None \<and>
        (labelHas b ja_mic_off \<or> labelHas b (utf16 ''Mic off'')) \<longrightarrow>
        \<not> isButtonMuted (Element b))
   \<and> (attrs b ''data-is-muted'' = None \<and>
        \<not> labelHas b ja_mic_off \<and> \<not> labelHas b (utf16 ''Mic off'') \<and>
        (labelHas b ja_mic_on \<or> labelHas b (utf16 ''Mic on'')
         \<or> labelHas b ja_mute \<or> labelHas b (utf16 ''Mute'')) \<longrightarrow>
        isButtonMuted (Element b))
   \<and> (attrs b ''data-is-muted'' = None \<and>
        \<not> labelHas b ja_mic_off \<and> \<not> labelHas b (utf16 ''Mic off'') \<and>
        \<not> labelHas b ja_mic_on \<and> \<not> labelHas b (utf16 ''Mic on'') \<and>
        \<not> labelHas b ja_mute \<and> \<not> labelHas b (utf16 ''Mute'') \<and>
        labelHas b (utf16 ''Unmute'') \<longrightarrow>
        \<not> isButtonMuted (Element b))
   \<and> (attrs b ''data-is-muted'' = None \<and>
        \<not> labelHas b ja_mic_off \<and> \<not> labelHas b (utf16 ''Mic off'') \<and>
        \<not> labelHas b ja_mic_on \<and> \<not> labelHas b (utf16 ''Mic on'') \<and>
        \<not> labelHas b ja_mute \<and> \<not> labelHas b (utf16 ''Mute'') \<and>
        \<not> classHas b (utf16 ''muted'') \<and> \<not> classHas b (utf16 ''mute'') \<longrightarrow>
        \<not> isButtonMuted (Element b))
   \<and> (labelHas b ja_unmute \<longrightarrow> labelHas b ja_mute)
   \<and> (attrs b ''data-is-muted'' = None \<and>
        \<not> labelHas b ja_mic_off \<and> \<not> labelHas b (utf16 ''Mic off'') \<and>
        labelHas b ja_unmute \<longrightarrow>
        isButtonMuted (Element b))
   \<and> \<not> isButtonMuted Null
   \<and> (isButtonMuted x \<longrightarrow>
        (\<exists>e. x = Element e \<and>
           (attrs e ''data-is-muted'' = Some (utf16 ''true'')
            \<or> attrs e ''data-is-muted'' = None \<and>
              (labelHas e ja_mic_on \<or> labelHas e (utf16 ''Mic on'')
               \<or> labelHas e ja_mute \<or> labelHas e (utf16 ''Mute'')
               \<or> classHas e (utf16 ''muted'') \<or> classHas e (utf16 ''mute'')))))"
proof -
  have cls: "list_ex (\<lambda>cls. js_includes cls (utf16 ''muted'') \<or> js_includes cls (utf16 ''mute''))
      (classList e) = (classHas e (utf16 ''muted'') \<or> classHas e (utf16 ''mute''))" for e
    by (auto simp add: classHas_def list_ex_iff)
  have last: "isButtonMuted x \<longrightarrow>
        (\<exists>e. x = Element e \<and>
           (attrs e ''data-is-muted'' = Some (utf16 ''true'')
            \<or> attrs e ''data-is-muted'' = None \<and>
              (labelHas e ja_mic_on \<or> labelHas e (utf16 ''Mic on'')
               \<or> labelHas e ja_mute \<or> labelHas e (utf16 ''Mute'')
               \<or> classHas e (utf16 ''muted'') \<or> classHas e (utf16 ''mute''))))"
  proof (cases x)
    case Null
    then show ?thesis by (simp add: isButtonMuted_def)
  next
    case (Element e)
    then show ?thesis
      by (cases "attrs e ''data-is-muted''")
         (auto simp add: isButtonMuted_def labelHas_def cls Let_def split: if_splits)
  qed
  have dead: "labelHas b ja_unmute \<longrightarrow> labelHas b ja_mute"
    by (simp add: labelHas_def ja_unmute_has_ja_mute)
  show ?thesis
    using last dead
    by (auto simp add: isButtonMuted_def labelHas_def cls Let_def)
qed

theorem isButtonMuted_probes_witness:
  "attrs (micButton True) ''data-is-muted'' = Some (utf16 ''true'')
   \<and> isButtonMuted (Element (micButton True))
   \<and> attrs (labelledButton ''Turn Mic off'') ''data-is-muted'' = None
   \<and> labelHas (labelledButton ''Turn Mic off'') (utf16 ''Mic off'')
   \<and> \<not> isButtonMuted (Element (labelledButton ''Turn Mic off''))
   \<and> attrs (labelledButton ''Mute'') ''data-is-muted'' = None
   \<and> labelHas (labelledButton ''Mute'') (utf16 ''Mute'')
   \<and> isButtonMuted (Element (labelledButton ''Mute''))
   \<and> attrs (labelledButton ''Microphone'') ''data-is-muted'' = None
   \<and> \<not> isButtonMuted (Element (labelledButton ''Microphone''))
   \<and> attrs (labelledButton ''Unmute'') ''data-is-muted'' = None
   \<and> labelHas (labelledButton ''Unmute'') (utf16 ''Unmute'')
   \<and> \<not> isButtonMuted (Element (labelledButton ''Unmute''))
   \<and> attrs (ja_labelledButton ja_unmute) ''data-is-muted'' = None
   \<and> labelHas (ja_labelledButton ja_unmute) ja_unmute
   \<and> isButtonMuted (Element (ja_labelledButton ja_unmute))
   \<and> \<not> isButtonMuted Null"
proof -
  have a: "attrs (micButton True) ''data-is-muted'' = Some (utf16 ''true'')"
    by (simp add: micButton_def)
  have l1: "labelHas (labelledButton ''Turn Mic off'') p = js_includes (utf16 ''Turn Mic off'') p" for p
    by (simp add: labelHas_def labelledButton_def ariaLabel_def)
  have l2: "labelHas (labelledButton ''Mute'') p = js_includes (utf16 ''Mute'') p" for p
    by (simp add: labelHas_def labelledButton_def ariaLabel_def)
  have l3: "labelHas (labelledButton ''Microphone'') p = js_includes (utf16 ''Microphone'') p" for p
    by (simp add: labelHas_def labelledButton_def ariaLabel_def)
  have l4: "labelHas (labelledButton ''Unmute'') p = js_includes (utf16 ''Unmute'') p" for p
    by (simp add: labelHas_def labelledButton_def ariaLabel_def)
  have l5: "labelHas (ja_labelledButton ja_unmute) p = js_includes ja_unmute p" for p
    by (simp add: labelHas_def ja_labelledButton_def ariaLabel_def)
  have c: "\<not> classHas (labelledButton l) p" for l p
    by (simp add: classHas_def labelledButton_def)
  have j: "attrs (ja_labelledButton l) ''data-is-muted'' = None" for l
    by (simp add: ja_labelledButton_def)
  from isButtonMuted_probes[of "micButton True" "utf16 ''true''" Null]
    isButtonMuted_probes[of "labelledButton ''Turn Mic off''" "[]" Null]
    isButtonMuted_probes[of "labelledButton ''Mute''" "[]" Null]
    isButtonMuted_probes[of "labelledButton ''Microphone''" "[]" Null]
    isButtonMuted_probes[of "labelledButton ''Unmute''" "[]" Null]
    isButtonMuted_probes[of "ja_labelledButton ja_unmute" "[]" Null]
  show ?thesis
    unfolding l1 l2 l3 l4 l5
    by (simp add: a j labelled_attr c utf16_def ja_mic_off_def ja_mic_on_def ja_mute_def
        ja_unmute_def)
qed

text \<open>
  C9, as the claim states it, fails: with no control on the page, a silent tick past the
  configured duration still dispatches a mute and changes the belief.
\<close>

theorem control_not_found_counterexample:
  "\<not> (findMuteButton (document (sampleReadings [0] [] 5000)) = None \<longrightarrow>
        dispatched (started\<lparr>silenceDuration := 3\<rparr>) (sampleReadings [0] [] 5000) = []
        \<and> isMuted (after (started\<lparr>silenceDuration := 3\<rparr>) (sampleReadings [0] [] 5000))
            = isMuted (started\<lparr>silenceDuration := 3\<rparr>))"
proof -
  let ?s = "started\<lparr>silenceDuration := 3\<rparr>"
  let ?r = "sampleReadings [0] [] 5000"
  have run: "running ?s" by (simp add: running_def started_def constructed_def)
  have sil: "js_less (calculateAverageVolume (byteFrequencyData ?r)) (volumeThreshold ?s)"
    by (simp add: sampleReadings_def volume_0 started_def constructed_def hundredth_pos)
  have rec: "reconciled ?s ?r = ?s\<lparr>dataArray := Some [0]\<rparr>"
    by (simp add: reconciled_def checkMuteState_def findMuteButton_empty sampleReadings_def)
  have reach: "(3::rat) \<le> fl_add 3 tenth"
    using tenth_pos by (intro fl_add_ge) (simp_all add: rnd_numeral)
  have cool: "\<not> isInCooldown (?s\<lparr>dataArray := Some [0]\<rparr>) 5000"
    by (simp add: isInCooldown_def fl_sub_def fl_div_def rnd_numeral started_def constructed_def)
  have "dispatched ?s ?r = [Mute]"
    unfolding dispatched_def tick_silent[OF run sil] rec
    using reach cool by (simp add: started_def constructed_def sampleReadings_def)
  moreover have "findMuteButton (document ?r) = None"
    by (simp add: sampleReadings_def findMuteButton_empty)
  ultimately show ?thesis by simp
qed

text \<open>
  C9, amended. When the control is not found, \<^verbatim>\<open>checkMuteState\<close> changes no field:
  the reconciliation alone is skipped. The decision of the tick is then taken on the
  belief as it was, and a mute or an unmute can still be dispatched.
\<close>

theorem control_not_found_skips_reconciliation:
  assumes "findMuteButton (document r) = None" and "running s"
  shows "checkMuteState s (document r) t1 t2 = s
       \<and> reconciled s r = s\<lparr>dataArray := Some (byteFrequencyData r)\<rparr>
       \<and> dispatched s r =
           (if js_less (calculateAverageVolume (byteFrequencyData r)) (volumeThreshold s)
            then (if maxSilenceDuration s \<le> fl_add (silenceDuration s) tenth \<and> \<not> isMuted s
                     \<and> \<not> isInCooldown s (nowCooldown r)
                  then [Mute] else [])
            else (if isMuted s then [Unmute] else []))"
proof -
  have rec: "reconciled s r = s\<lparr>dataArray := Some (byteFrequencyData r)\<rparr>"
    using assms(1) by (simp add: reconciled_def checkMuteState_def)
  have cool: "isInCooldown (s\<lparr>dataArray := Some (byteFrequencyData r)\<rparr>) (nowCooldown r)
      = isInCooldown s (nowCooldown r)"
    by (simp add: isInCooldown_def)
  show ?thesis
  proof (cases "js_less (calculateAverageVolume (byteFrequencyData r)) (volumeThreshold s)")
    case True
    show ?thesis
      unfolding dispatched_def tick_silent[OF assms(2) True]
      using assms(1) True by (simp add: rec cool checkMuteState_def)
  next
    case False
    show ?thesis
      unfolding dispatched_def tick_speech[OF assms(2) False]
      using assms(1) False by (simp add: rec checkMuteState_def)
  qed
qed

theorem control_not_found_skips_reconciliation_witness:
  "findMuteButton (document (sampleReadings [0] [] 5000)) = None
   \<and> running (started\<lparr>isMuted := True\<rparr>)
   \<and> checkMuteState (started\<lparr>isMuted := True\<rparr>) (document (sampleReadings [0] [] 5000)) 5000 5000
       = started\<lparr>isMuted := True\<rparr>
   \<and> dispatched (started\<lparr>isMuted := True\<rparr>) (sampleReadings [0] [] 5000) = []"
proof -
  let ?s = "started\<lparr>isMuted := True\<rparr>"
  let ?r = "sampleReadings [0] [] 5000"
  have nf: "findMuteButton (document ?r) = None"
    by (simp add: sampleReadings_def findMuteButton_empty)
  have run: "running ?s" by (simp add: running_def started_def constructed_def)
  have sil: "js_less (calculateAverageVolume (byteFrequencyData ?r)) (volumeThreshold ?s)"
    by (simp add: sampleReadings_def volume_0 started_def constructed_def hundredth_pos)
  have m: "isMuted ?s" by simp
  from control_not_found_skips_reconciliation[OF nf run, of 5000 5000] sil m nf run
  show ?thesis by simp
qed

text \<open>
  C10. \<^verbatim>\<open>autoUnmute\<close> on a state that believes "muted" dispatches the unmute and
  stamps the last-unmute time with its clock value. From the state it leaves, no mute is
  dispatched on any tick for as long as the cooldown test against that stamp succeeds
  (the clock is taken not to go back before the stamp); no manual change is involved.
  Every tick that dispatches an unmute ends with the stamp of that dispatch.
\<close>

theorem cooldown_after_auto_unmute:
  assumes "isMuted s"
    and "\<forall>r\<in>set rs. t0 \<le> nowCheck1 r \<and> t0 \<le> nowCheck2 r \<and> t0 \<le> nowUnmute r"
    and "\<forall>r\<in>set rs. fl_div (fl_sub (of_int (nowCooldown r)) (of_int t0)) 1000 < unmuteCooldown s"
  shows "snd (autoUnmute s t0) = [Unmute]
       \<and> lastUnmuteTime (fst (autoUnmute s t0)) = t0
       \<and> (\<forall>acts\<in>set (fst (run (fst (autoUnmute s t0)) rs)). Mute \<notin> set acts)
       \<and> (Unmute \<in> set (dispatched w q) \<longrightarrow> lastUnmuteTime (after w q) = nowUnmute q)"
proof -
  have au: "autoUnmute s t0 = (s\<lparr>isMuted := False, lastUnmuteTime := t0\<rparr>, [Unmute])"
    using assms(1) by (simp add: autoUnmute_def)
  have "\<forall>acts\<in>set (fst (run (s\<lparr>isMuted := False, lastUnmuteTime := t0\<rparr>) rs)). Mute \<notin> set acts"
    using assms(2,3) by (intro no_mute_while_cooling[of t0]) simp_all
  then show ?thesis using unmute_stamps[of w q] by (simp add: au)
qed

theorem cooldown_after_auto_unmute_witness:
  "isMuted (started\<lparr>isMuted := True\<rparr>)
   \<and> (10000::int) \<le> nowCheck1 (sampleReadings [0] [micButton False] 11000)
   \<and> fl_div (fl_sub (of_int (nowCooldown (sampleReadings [0] [micButton False] 11000)))
        (of_int 10000)) 1000 < unmuteCooldown (started\<lparr>isMuted := True\<rparr>)
   \<and> snd (autoUnmute (started\<lparr>isMuted := True\<rparr>) 10000) = [Unmute]
   \<and> lastUnmuteTime (fst (autoUnmute (started\<lparr>isMuted := True\<rparr>) 10000)) = 10000
   \<and> Mute \<notin> set (concat (fst (run (fst (autoUnmute (started\<lparr>isMuted := True\<rparr>) 10000))
         [sampleReadings [0] [micButton False] 11000])))
   \<and> Unmute \<in> set (dispatched
         (started\<lparr>silenceDuration := 3, isMuted := True, lastMuteState := True\<rparr>)
         (sampleReadings [255] [micButton True] 5000))
   \<and> lastUnmuteTime (after
         (started\<lparr>silenceDuration := 3, isMuted := True, lastMuteState := True\<rparr>)
         (sampleReadings [255] [micButton True] 5000)) = 5000"
proof -
  let ?s = "started\<lparr>isMuted := True\<rparr>"
  let ?w = "started\<lparr>silenceDuration := 3, isMuted := True, lastMuteState := True\<rparr>"
  let ?q = "sampleReadings [255] [micButton True] 5000"
  let ?rb = "sampleReadings [0] [micButton False] 11000"
  have m: "isMuted ?s" by simp
  have cd: "unmuteCooldown ?s = 2" by (simp add: started_def constructed_def)
  have clock: "\<forall>r\<in>set [?rb]. 10000 \<le> nowCheck1 r \<and> 10000 \<le> nowCheck2 r \<and> 10000 \<le> nowUnmute r"
    by (simp add: sample_fields)
  have cool: "\<forall>r\<in>set [?rb]. fl_div (fl_sub (of_int (nowCooldown r)) (of_int 10000)) 1000
      < unmuteCooldown ?s"
    by (simp add: sample_fields cd elapsed_1)
  have c1: "(10000::int) \<le> nowCheck1 ?rb" by (simp add: sample_fields)
  have c2: "fl_div (fl_sub (of_int (nowCooldown ?rb)) (of_int 10000)) 1000 < unmuteCooldown ?s"
    by (simp add: sample_fields cd elapsed_1)
  have run: "running ?w" by (rule running_started)
  have loud: "\<not> js_less (calculateAverageVolume (byteFrequencyData ?q)) (volumeThreshold ?w)"
    by (simp add: sample_fields volume_255 started_def constructed_def hundredth_val)
  have d: "Unmute \<in> set (dispatched ?w ?q)"
    unfolding dispatched_def tick_speech[OF run loud] by (simp add: reconciled_sample)
  from cooldown_after_auto_unmute[OF m clock cool, of ?w ?q] m c1 c2 d
  show ?thesis by (simp add: sample_fields del: run.simps)
qed

end
